theory Spec2Isabelle
  imports Complex_Main "HOL-Library.Multiset"
begin

section \<open>Python values and errors\<close>

text \<open>
  The exceptions of the Python source that the model keeps as values.
\<close>

datatype py_error = ValueError | IndexError | TypeError | KeyError | ZeroDivisionError

text \<open>
  An argument that may be Python's \<open>None\<close>: \<open>len(None)\<close> raises \<open>TypeError\<close>,
  \<open>len\<close> of a list is its length.
\<close>

definition py_len :: "'a list option \<Rightarrow> py_error + int" where
  "py_len v = (case v of None \<Rightarrow> Inl TypeError | Some xs \<Rightarrow> Inr (int (length xs)))"

text \<open>\<open>xs[i]\<close> for a non-negative literal index.\<close>

definition py_index :: "'a list \<Rightarrow> nat \<Rightarrow> py_error + 'a" where
  "py_index xs i = (if i < length xs then Inr (xs ! i) else Inl IndexError)"

text \<open>\<open>max(xs)\<close>: \<open>ValueError\<close> on the empty list.\<close>

definition py_max :: "nat list \<Rightarrow> py_error + nat" where
  "py_max xs = (case xs of [] \<Rightarrow> Inl ValueError | x # rest \<Rightarrow> Inr (fold max rest x))"

text \<open>\<open>d[k]\<close> on a dictionary: \<open>KeyError\<close> when the key is absent.\<close>

definition py_getitem :: "('k \<rightharpoonup> 'v) \<Rightarrow> 'k \<Rightarrow> py_error + 'v" where
  "py_getitem d k = (case d k of None \<Rightarrow> Inl KeyError | Some v \<Rightarrow> Inr v)"

text \<open>
  \<open>collections.deque(maxlen=n).append(x)\<close>: the element goes in on the right and, when
  the deque is then longer than \<open>maxlen\<close>, the leftmost element is dropped. \<open>None\<close> is the
  unbounded deque.
\<close>

definition deque_append :: "nat option \<Rightarrow> 'a list \<Rightarrow> 'a \<Rightarrow> 'a list" where
  "deque_append maxlen dq x =
     (let dq' = dq @ [x]
      in case maxlen of None \<Rightarrow> dq' | Some n \<Rightarrow> if n < length dq' then tl dq' else dq')"

section \<open>get_action\<close>

text \<open>
  \<^verbatim>\<open>msg_to_act.get(msg, None)\<close> over the three command strings.
\<close>

definition get_action :: "string \<Rightarrow> int option" where
  "get_action msg =
     map_of [(''ACTION:TURNLEFT'', 1), (''ACTION:TURNRIGHT'', 2), (''ACTION:FORWARD'', 3)] msg"

section \<open>ActionObservationDictionary\<close>

text \<open>
  The four special-token names are constants of the module \<open>dict\<close>, which is not part
  of the source file; they are taken as a parameter.
\<close>

record 't special_tokens =
  START_TOKEN :: 't
  END_TOKEN :: 't
  UNK_TOKEN :: 't
  PAD_TOKEN :: 't

record 't ActionObservationDictionary =
  pad_idx :: int
  start_idx :: int
  end_idx :: int
  unk_idx :: int
  tok2i :: "'t \<rightharpoonup> int"

text \<open>
  The body of \<open>__init__\<close> once the two lengths are known; the dictionary literal inserts
  its keys in the order start, end, pad, unknown.
\<close>

definition mk_dictionary :: "'t special_tokens \<Rightarrow> int \<Rightarrow> 't ActionObservationDictionary" where
  "mk_dictionary toks p =
     (let pad = p; start = pad + 1; endi = start + 1; unk = endi + 1
      in \<lparr> pad_idx = pad, start_idx = start, end_idx = endi, unk_idx = unk,
           tok2i = [START_TOKEN toks \<mapsto> start, END_TOKEN toks \<mapsto> endi,
                    PAD_TOKEN toks \<mapsto> pad, UNK_TOKEN toks \<mapsto> unk] \<rparr>)"

definition ActionObservationDictionary_init ::
  "'t special_tokens \<Rightarrow> 'a list option \<Rightarrow> 'b list option \<Rightarrow>
     py_error + 't ActionObservationDictionary" where
  "ActionObservationDictionary_init toks landmarks actions =
     (case py_len landmarks of
        Inl e \<Rightarrow> Inl e
      | Inr l \<Rightarrow>
         (case py_len actions of
            Inl e \<Rightarrow> Inl e
          | Inr a \<Rightarrow> Inr (mk_dictionary toks (l + a))))"

section \<open>The trainer object and its collaborators\<close>

text \<open>
  A cell of a trajectory or of the source grid: a Python int (an action token, the end
  marker, a fill value) or an observation bundle, the dictionary \<open>obs_emb\<close> from
  feature-loader name to features.
\<close>

datatype 'f elem = PyInt int | ObservationBundle "string \<rightharpoonup> 'f"

text \<open>
  The two call shapes of \<open>loader.get\<close>: with the whole location, or with its first two
  coordinates.
\<close>

datatype loader_args = AtLoc "int list" | AtXY int int

text \<open>
  The fields of \<open>self\<close> that the modelled methods read, together with the imported
  functions they call: \<open>step_aware\<close>, \<open>Dictionary.encode\<close> and
  \<open>Dictionary.__getitem__\<close> at the pad token, \<open>Landmarks.get_landmarks_2d\<close>, the
  feature loaders (a dictionary, kept in iteration order), \<open>torch.sort\<close> with
  \<open>descending=True\<close> (values and indices), and the contents of a freshly allocated,
  uninitialised row of a \<open>torch.LongTensor\<close>.
\<close>

record ('t, 'f, 'ls, 'tl) trainer =
  self_contextlen :: "nat option"
  self_bsz :: int
  self_num_epochs :: int
  self_valid_patience :: int
  self_action_obs_dict :: "'t ActionObservationDictionary"
  self_tokens :: "'t special_tokens"
  self_feature_loaders :: "(string \<times> (string \<Rightarrow> loader_args \<Rightarrow> 'f)) list"
  dictionary_encode :: "string \<Rightarrow> bool \<Rightarrow> int list"
  dictionary_pad :: int
  get_landmarks_2d :: "string \<Rightarrow> int list \<Rightarrow> int list \<Rightarrow> 'ls \<times> 'tl"
  step_aware :: "int \<Rightarrow> int list \<Rightarrow> int list \<Rightarrow> int list"
  torch_sort_descending :: "nat list \<Rightarrow> nat list \<times> nat list"
  uninitialized_row :: 'tl

text \<open>
  What the library promises of \<open>torch.sort(t, descending=True)\<close>: the indices are a
  rearrangement of \<open>0, ..., n - 1\<close>, the values are the input read at those indices, and
  the values are in descending order. The order among equal values is not part of it.
\<close>

definition torch_sort_contract :: "nat list \<Rightarrow> nat list \<times> nat list \<Rightarrow> bool" where
  "torch_sort_contract xs r =
     (case r of (vals, idxs) \<Rightarrow>
        sort idxs = [0..<length xs] \<and> vals = map (\<lambda>i. xs ! i) idxs \<and> sorted (rev vals))"

section \<open>load_data\<close>

record msg =
  msg_id :: string
  msg_text :: string

record config =
  start_location :: "int list"
  boundaries :: "int list"
  neighborhood :: string
  dialog :: "msg list"

text \<open>The four parallel arrays \<open>[Xs, tourist_locs, landmarks, ys]\<close>.\<close>

record ('f, 'ls, 'tl) dataset =
  Xs :: "'f elem list list"
  tourist_locs :: "'tl list"
  landmarks :: "'ls list"
  ys :: "int list list"

text \<open>The arrays together with the per-dialogue variables \<open>loc\<close> and \<open>act_obs_memory\<close>.\<close>

record ('f, 'ls, 'tl) build_state = "('f, 'ls, 'tl) dataset" +
  loc :: "int list"
  act_obs_memory :: "'f elem list"

text \<open>
  One pass of the body of \<open>for k, loader in feature_loaders.items()\<close>: the gold-standard
  loader gets the whole location, any other loader gets \<open>loc[0]\<close> and \<open>loc[1]\<close>.
\<close>

definition get_features ::
  "string \<Rightarrow> (string \<Rightarrow> loader_args \<Rightarrow> 'f) \<Rightarrow> string \<Rightarrow> int list \<Rightarrow> py_error + 'f" where
  "get_features k loader nb l =
     (if k = ''goldstandard'' then Inr (loader nb (AtLoc l))
      else case py_index l 0 of
             Inl e \<Rightarrow> Inl e
           | Inr x \<Rightarrow> (case py_index l 1 of
                        Inl e \<Rightarrow> Inl e
                      | Inr y \<Rightarrow> Inr (loader nb (AtXY x y))))"

fun build_obs_emb ::
  "(string \<times> (string \<Rightarrow> loader_args \<Rightarrow> 'f)) list \<Rightarrow> string \<Rightarrow> int list \<Rightarrow>
     (string \<rightharpoonup> 'f) \<Rightarrow> py_error + (string \<rightharpoonup> 'f)" where
  "build_obs_emb [] nb l obs_emb = Inr obs_emb"
| "build_obs_emb ((k, loader) # rest) nb l obs_emb =
     (case get_features k loader nb l of
        Inl e \<Rightarrow> Inl e
      | Inr features \<Rightarrow> build_obs_emb rest nb l (obs_emb(k \<mapsto> features)))"

text \<open>
  The branch \<open>act is None\<close> of the dialogue loop (a tourist turn that is free text): an
  example is emitted and the window cleared.
\<close>

definition emit_example ::
  "('t, 'f, 'ls, 'tl) trainer \<Rightarrow> string \<Rightarrow> int list \<Rightarrow> string \<Rightarrow>
     ('f, 'ls, 'tl) build_state \<Rightarrow> py_error + ('f, 'ls, 'tl) build_state" where
  "emit_example self nb bnd txt st =
     (let y = dictionary_encode self txt True;
          (ls, tourist_loc) = get_landmarks_2d self nb bnd (loc st)
      in case build_obs_emb (self_feature_loaders self) nb (loc st) Map.empty of
           Inl e \<Rightarrow> Inl e
         | Inr obs_emb \<Rightarrow>
            (let memory = deque_append (self_contextlen self) (act_obs_memory st)
                            (ObservationBundle obs_emb)
             in case py_getitem (tok2i (self_action_obs_dict self))
                       (END_TOKEN (self_tokens self)) of
                  Inl e \<Rightarrow> Inl e
                | Inr end_marker \<Rightarrow>
                    Inr (st\<lparr> landmarks := landmarks st @ [ls],
                             Xs := Xs st @ [memory @ [PyInt end_marker]],
                             ys := ys st @ [y],
                             tourist_locs := tourist_locs st @ [tourist_loc],
                             act_obs_memory := [] \<rparr>)))"

text \<open>
  The \<open>else\<close> branch (a tourist turn that is a command): the location is stepped, the
  action goes into the window, and for \<open>act == 2\<close> the landmarks and the observation of
  the new location follow.
\<close>

definition apply_action ::
  "('t, 'f, 'ls, 'tl) trainer \<Rightarrow> string \<Rightarrow> int list \<Rightarrow> int \<Rightarrow>
     ('f, 'ls, 'tl) build_state \<Rightarrow> py_error + ('f, 'ls, 'tl) build_state" where
  "apply_action self nb bnd act st =
     (let loc' = step_aware self act (loc st) bnd;
          memory = deque_append (self_contextlen self) (act_obs_memory st) (PyInt act)
      in if act = 2 then
           (let (ls, _) = get_landmarks_2d self nb bnd loc'
            in case build_obs_emb (self_feature_loaders self) nb loc' Map.empty of
                 Inl e \<Rightarrow> Inl e
               | Inr obs_emb \<Rightarrow>
                   Inr (st\<lparr> loc := loc',
                            landmarks := landmarks st @ [ls],
                            act_obs_memory := deque_append (self_contextlen self) memory
                                                (ObservationBundle obs_emb) \<rparr>))
         else Inr (st\<lparr> loc := loc', act_obs_memory := memory \<rparr>))"

text \<open>The body of \<open>for msg in config['dialog']\<close>.\<close>

definition process_msg ::
  "('t, 'f, 'ls, 'tl) trainer \<Rightarrow> string \<Rightarrow> int list \<Rightarrow> msg \<Rightarrow>
     ('f, 'ls, 'tl) build_state \<Rightarrow> py_error + ('f, 'ls, 'tl) build_state" where
  "process_msg self nb bnd m st =
     (if msg_id m = ''Tourist'' then
        (case get_action (msg_text m) of
           None \<Rightarrow> emit_example self nb bnd (msg_text m) st
         | Some act \<Rightarrow> apply_action self nb bnd act st)
      else Inr st)"

fun process_dialog ::
  "('t, 'f, 'ls, 'tl) trainer \<Rightarrow> string \<Rightarrow> int list \<Rightarrow> msg list \<Rightarrow>
     ('f, 'ls, 'tl) build_state \<Rightarrow> py_error + ('f, 'ls, 'tl) build_state" where
  "process_dialog self nb bnd [] st = Inr st"
| "process_dialog self nb bnd (m # ms) st =
     (case process_msg self nb bnd m st of
        Inl e \<Rightarrow> Inl e
      | Inr st' \<Rightarrow> process_dialog self nb bnd ms st')"

text \<open>
  The body of \<open>for config in dataset\<close>: the location starts at \<open>start_location\<close> and the
  window is a new, empty deque; the four arrays carry over.
\<close>

definition process_config ::
  "('t, 'f, 'ls, 'tl) trainer \<Rightarrow> config \<Rightarrow> ('f, 'ls, 'tl) dataset \<Rightarrow>
     py_error + ('f, 'ls, 'tl) dataset" where
  "process_config self c d =
     (case process_dialog self (neighborhood c) (boundaries c) (dialog c)
             \<lparr> Xs = Xs d, tourist_locs = tourist_locs d, landmarks = landmarks d, ys = ys d,
               loc = start_location c, act_obs_memory = [] \<rparr> of
        Inl e \<Rightarrow> Inl e
      | Inr st \<Rightarrow>
          Inr \<lparr> Xs = Xs st, tourist_locs = tourist_locs st,
                landmarks = landmarks st, ys = ys st \<rparr>)"

fun build_data ::
  "('t, 'f, 'ls, 'tl) trainer \<Rightarrow> config list \<Rightarrow> ('f, 'ls, 'tl) dataset \<Rightarrow>
     py_error + ('f, 'ls, 'tl) dataset" where
  "build_data self [] d = Inr d"
| "build_data self (c # cs) d =
     (case process_config self c d of
        Inl e \<Rightarrow> Inl e
      | Inr d' \<Rightarrow> build_data self cs d')"

text \<open>
  \<open>load_data\<close>: \<open>cached\<close> is the content of the cache directory when it exists. Writing
  the arrays to disk after a build is input and output, and is left out.
\<close>

definition load_data ::
  "('t, 'f, 'ls, 'tl) trainer \<Rightarrow> config list \<Rightarrow> ('f, 'ls, 'tl) dataset option \<Rightarrow> bool \<Rightarrow>
     py_error + ('f, 'ls, 'tl) dataset" where
  "load_data self configs cached temp_build =
     (case cached of
        Some data \<Rightarrow>
          if \<not> temp_build then Inr data
          else build_data self configs \<lparr> Xs = [], tourist_locs = [], landmarks = [], ys = [] \<rparr>
      | None \<Rightarrow> build_data self configs \<lparr> Xs = [], tourist_locs = [], landmarks = [], ys = [] \<rparr>)"

section \<open>create_batch\<close>

record ('f, 'tl) batch =
  X_batch :: "'f elem list list"
  mask :: "real list list"
  t_locs_batch :: "'tl list"
  y_batch :: "int list list"
  X_lengths :: "nat list"
  y_lengths :: "nat list"
  max_len :: nat

text \<open>The five structures that the loop over \<open>sorted_indices\<close> fills.\<close>

record ('f, 'tl) sorted_acc =
  sorted_X_batch :: "'f elem list list"
  sorted_y_batch :: "int list list"
  sorted_y_lens :: "nat list"
  sorted_tourist_loc_batch :: "'tl list"
  sorted_mask :: "real list list"

text \<open>A row of a grid of width \<open>n\<close>: the sequence, then the fill value.\<close>

definition pad_row :: "nat \<Rightarrow> 'a \<Rightarrow> 'a list \<Rightarrow> 'a list" where
  "pad_row n fill seq = seq @ replicate (n - length seq) fill"

text \<open>\<open>row[:n] = 1.0\<close> on a row of a float tensor.\<close>

definition set_ones :: "nat \<Rightarrow> real list \<Rightarrow> real list" where
  "set_ones n row = replicate (min n (length row)) 1 @ drop n row"

text \<open>
  The loop \<open>for idx in sorted_indices\<close> with its counter \<open>i\<close>. Every index that is out
  of range raises \<open>IndexError\<close>.
\<close>

fun sort_loop ::
  "'f elem list list \<Rightarrow> int list list \<Rightarrow> nat list \<Rightarrow> 'tl list \<Rightarrow> nat list \<Rightarrow>
     nat \<Rightarrow> nat list \<Rightarrow> ('f, 'tl) sorted_acc \<Rightarrow> py_error + ('f, 'tl) sorted_acc" where
  "sort_loop Xb yb y_lens locb sorted_seq_lens i [] acc = Inr acc"
| "sort_loop Xb yb y_lens locb sorted_seq_lens i (idx # rest) acc =
     (if idx < length Xb \<and> i < length (sorted_X_batch acc)
         \<and> idx < length yb \<and> i < length (sorted_y_batch acc)
         \<and> i < length y_lens
         \<and> idx < length locb \<and> i < length (sorted_tourist_loc_batch acc)
         \<and> i < length sorted_seq_lens \<and> i < length (sorted_mask acc)
      then sort_loop Xb yb y_lens locb sorted_seq_lens (Suc i) rest
             (acc\<lparr> sorted_X_batch := (sorted_X_batch acc)[i := Xb ! idx],
                   sorted_y_batch := (sorted_y_batch acc)[i := yb ! idx],
                   sorted_y_lens := sorted_y_lens acc @ [y_lens ! i],
                   sorted_tourist_loc_batch := (sorted_tourist_loc_batch acc)[i := locb ! idx],
                   sorted_mask := (sorted_mask acc)
                                    [i := set_ones (sorted_seq_lens ! i) (sorted_mask acc ! i)] \<rparr>)
      else Inl IndexError)"

text \<open>
  \<open>create_batch\<close>. \<open>Xb\<close> is \<open>X_batch\<close>, the grid of the int 0 with every trajectory written
  over the start of its row; \<open>yb\<close> is \<open>y_batch\<close>, filled with the pad index of the target
  dictionary, which raises when there are more targets than rows. The mask computed
  before the sort is never read and is left out. The loop starts from a source grid
  filled with \<open>tok2i[PAD_TOKEN]\<close>, a target grid and a mask of zeros, and an uninitialised
  location tensor. The returned source lengths are \<open>sorted(seq_lens, reverse=True)\<close>.
\<close>

definition create_batch ::
  "('t, 'f, 'ls, 'tl) trainer \<Rightarrow> 'f elem list list \<Rightarrow> 'tl list \<Rightarrow> int list list \<Rightarrow>
     py_error + ('f, 'tl) batch" where
  "create_batch self Xs_in tourist_locs_in ys_in =
     (let batch_size = length Xs_in;
          seq_lens = map length Xs_in;
          y_lens = map length ys_in
      in case py_max y_lens of
           Inl e \<Rightarrow> Inl e
         | Inr max_y_len \<Rightarrow>
        (case py_max seq_lens of
           Inl e \<Rightarrow> Inl e
         | Inr max_X_len \<Rightarrow>
        (let Xb = map (pad_row max_X_len (PyInt 0)) Xs_in
         in if batch_size < length ys_in then Inl IndexError
            else
        (let yb = map (pad_row max_y_len (dictionary_pad self)) ys_in
                    @ replicate (batch_size - length ys_in)
                        (replicate max_y_len (dictionary_pad self));
             tourist_loc_batch = tourist_locs_in;
             (sorted_seq_lens, sorted_indices) = torch_sort_descending self seq_lens
         in case py_getitem (tok2i (self_action_obs_dict self))
                   (PAD_TOKEN (self_tokens self)) of
              Inl e \<Rightarrow> Inl e
            | Inr pad \<Rightarrow>
           (case sort_loop Xb yb y_lens tourist_loc_batch sorted_seq_lens 0 sorted_indices
                   \<lparr> sorted_X_batch = replicate batch_size (replicate max_X_len (PyInt pad)),
                     sorted_y_batch = replicate batch_size (replicate max_y_len 0),
                     sorted_y_lens = [],
                     sorted_tourist_loc_batch =
                       replicate (length tourist_loc_batch) (uninitialized_row self),
                     sorted_mask = replicate batch_size (replicate max_X_len 0) \<rparr> of
              Inl e \<Rightarrow> Inl e
            | Inr acc \<Rightarrow>
                Inr \<lparr> X_batch = sorted_X_batch acc,
                      mask = sorted_mask acc,
                      t_locs_batch = sorted_tourist_loc_batch acc,
                      y_batch = sorted_y_batch acc,
                      X_lengths = rev (sort seq_lens),
                      y_lengths = sorted_y_lens acc,
                      max_len = max_y_len \<rparr>)))))"

text \<open>
  The conditions under which \<open>create_batch\<close> is called by \<open>train\<close> and the evaluation
  methods: the three slices have the same length and hold at least one example, the
  library sort keeps its contract on the source lengths, and the pad token is a key of
  \<open>tok2i\<close>.
\<close>

definition batch_ready ::
  "('t, 'f, 'ls, 'tl) trainer \<Rightarrow> 'f elem list list \<Rightarrow> 'tl list \<Rightarrow> int list list \<Rightarrow> bool" where
  "batch_ready self Xs_in locs ys_in =
     (Xs_in \<noteq> [] \<and> length ys_in = length Xs_in \<and> length locs = length Xs_in
      \<and> torch_sort_contract (map length Xs_in) (torch_sort_descending self (map length Xs_in))
      \<and> PAD_TOKEN (self_tokens self) \<in> dom (tok2i (self_action_obs_dict self)))"

section \<open>train\<close>

text \<open>
  \<open>best_valid\<close> starts at \<open>float('inf')\<close>; a validation loss is a real number.
\<close>

datatype best = Infinity | Finite real

definition less_best :: "real \<Rightarrow> best \<Rightarrow> bool" where
  "less_best v b = (case b of Infinity \<Rightarrow> True | Finite r \<Rightarrow> v < r)"

text \<open>
  The calls that the controller makes on its collaborators, in order: \<open>eval_epoch\<close>,
  \<open>lr_scheduler.step\<close>, \<open>save_model\<close> and \<open>eval_test\<close>.
\<close>

datatype call = EvalEpoch | LrSchedulerStep real | SaveModel | EvalTest

text \<open>How \<open>train\<close> ends: by its \<open>return\<close> inside the loop, or after the last epoch.\<close>

datatype finish = PatienceExhausted | EpochBudgetExhausted

datatype 'a step = Continue 'a | Return 'a

text \<open>
  The local variables of \<open>train\<close>: the four arrays unpacked from \<open>self.train_data\<close>,
  \<open>best_valid\<close> and \<open>valid_patience\<close>; and the log of the calls made so far.
\<close>

record ('f, 'ls, 'tl) train_state = "('f, 'ls, 'tl) dataset" +
  best_valid :: best
  valid_patience :: int
  calls :: "call list"

definition train_init :: "('f, 'ls, 'tl) dataset \<Rightarrow> ('f, 'ls, 'tl) train_state" where
  "train_init train_data =
     \<lparr> Xs = Xs train_data, tourist_locs = tourist_locs train_data,
       landmarks = landmarks train_data, ys = ys train_data,
       best_valid = Infinity, valid_patience = 0, calls = [] \<rparr>"

text \<open>
  \<open>sklearn.utils.shuffle(Xs, tourist_locs, ys)\<close>: arrays of different lengths raise
  \<open>ValueError\<close>; otherwise one permutation of the row indices is drawn and every array is
  read at it. \<open>perm\<close> is the permutation drawn.
\<close>

definition shuffle ::
  "nat list \<Rightarrow> 'a list \<Rightarrow> 'b list \<Rightarrow> 'c list \<Rightarrow> py_error + ('a list \<times> 'b list \<times> 'c list)" where
  "shuffle perm a b c =
     (if length a = length b \<and> length b = length c
      then Inr (map (\<lambda>i. a ! i) perm, map (\<lambda>i. b ! i) perm, map (\<lambda>i. c ! i) perm)
      else Inl ValueError)"

text \<open>\<open>range(0, n, bsz)\<close>: a step of 0 raises \<open>ValueError\<close>, a negative step gives nothing.\<close>

definition batch_starts :: "int \<Rightarrow> nat \<Rightarrow> py_error + nat list" where
  "batch_starts bsz n =
     (if bsz = 0 then Inl ValueError
      else if bsz < 0 then Inr []
      else Inr (map (\<lambda>k. k * nat bsz) [0..<(n + nat bsz - 1) div nat bsz]))"

text \<open>
  The loop \<open>for jj in range(0, len(Xs), self.bsz)\<close>: each batch is built by
  \<open>create_batch\<close> from the slices \<open>[jj:jj + bsz]\<close>. The forward and backward passes of the
  model, the optimiser step and the timed log act on the model and the console only.
\<close>

fun run_batches ::
  "('t, 'f, 'ls, 'tl) trainer \<Rightarrow> 'f elem list list \<Rightarrow> 'tl list \<Rightarrow> int list list \<Rightarrow> nat list \<Rightarrow>
     py_error + ('f, 'tl) batch list" where
  "run_batches self X L Y [] = Inr []"
| "run_batches self X L Y (jj # rest) =
     (case create_batch self (take (nat (self_bsz self)) (drop jj X))
             (take (nat (self_bsz self)) (drop jj L))
             (take (nat (self_bsz self)) (drop jj Y)) of
        Inl e \<Rightarrow> Inl e
      | Inr b \<Rightarrow>
          (case run_batches self X L Y rest of
             Inl e \<Rightarrow> Inl e
           | Inr bs \<Rightarrow> Inr (b # bs)))"

text \<open>
  The end of an epoch, from \<open>valid_loss = self.eval_epoch()\<close> to the \<open>return\<close>.
\<close>

definition after_validation ::
  "('t, 'f, 'ls, 'tl) trainer \<Rightarrow> real \<Rightarrow> ('f, 'ls, 'tl) train_state \<Rightarrow>
     ('f, 'ls, 'tl) train_state step" where
  "after_validation self valid_loss st0 =
     (let st = st0\<lparr> calls := calls st0 @ [EvalEpoch, LrSchedulerStep valid_loss] \<rparr>
      in if less_best valid_loss (best_valid st)
         then Continue (st\<lparr> best_valid := Finite valid_loss, valid_patience := 0 \<rparr>)
         else (let st' = st\<lparr> valid_patience := valid_patience st + 1 \<rparr>
               in if valid_patience st' = self_valid_patience self
                  then Return (st'\<lparr> calls := calls st' @ [SaveModel, EvalTest] \<rparr>)
                  else Continue st'))"

text \<open>
  One pass of \<open>for epoch_num in range(self.num_epochs)\<close>. With no batch at all,
  \<open>total_loss/total\<close> divides 0.0 by 0.0 and raises. \<open>valid_loss\<close> is what \<open>eval_epoch\<close>
  returns in this epoch.
\<close>

definition train_epoch ::
  "('t, 'f, 'ls, 'tl) trainer \<Rightarrow> nat list \<Rightarrow> real \<Rightarrow> ('f, 'ls, 'tl) train_state \<Rightarrow>
     py_error + ('f, 'ls, 'tl) train_state step" where
  "train_epoch self perm valid_loss st =
     (case shuffle perm (Xs st) (tourist_locs st) (ys st) of
        Inl e \<Rightarrow> Inl e
      | Inr (X, L, Y) \<Rightarrow>
          (case batch_starts (self_bsz self) (length X) of
             Inl e \<Rightarrow> Inl e
           | Inr starts \<Rightarrow>
               (case run_batches self X L Y starts of
                  Inl e \<Rightarrow> Inl e
                | Inr batches \<Rightarrow>
                    if batches = [] then Inl ZeroDivisionError
                    else Inr (after_validation self valid_loss
                                (st\<lparr> Xs := X, tourist_locs := L, ys := Y \<rparr>)))))"

text \<open>
  The epochs in order; \<open>draw e\<close> and \<open>valid e\<close> are the permutation drawn and the
  validation loss measured in epoch \<open>e\<close>. After the last epoch the model is saved and
  both evaluations run.
\<close>

fun train_epochs ::
  "('t, 'f, 'ls, 'tl) trainer \<Rightarrow> (nat \<Rightarrow> nat list) \<Rightarrow> (nat \<Rightarrow> real) \<Rightarrow> nat list \<Rightarrow>
     ('f, 'ls, 'tl) train_state \<Rightarrow> py_error + finish \<times> ('f, 'ls, 'tl) train_state" where
  "train_epochs self draw valid [] st =
     Inr (EpochBudgetExhausted, st\<lparr> calls := calls st @ [SaveModel, EvalEpoch, EvalTest] \<rparr>)"
| "train_epochs self draw valid (epoch_num # rest) st =
     (case train_epoch self (draw epoch_num) (valid epoch_num) st of
        Inl e \<Rightarrow> Inl e
      | Inr (Return st') \<Rightarrow> Inr (PatienceExhausted, st')
      | Inr (Continue st') \<Rightarrow> train_epochs self draw valid rest st')"

definition train ::
  "('t, 'f, 'ls, 'tl) trainer \<Rightarrow> (nat \<Rightarrow> nat list) \<Rightarrow> (nat \<Rightarrow> real) \<Rightarrow>
     ('f, 'ls, 'tl) dataset \<Rightarrow> py_error + finish \<times> ('f, 'ls, 'tl) train_state" where
  "train self draw valid train_data =
     train_epochs self draw valid [0..<nat (self_num_epochs self)] (train_init train_data)"

text \<open>
  The trainer as \<open>__init__\<close> leaves it for \<open>train\<close>: a positive batch size, a library
  sort that keeps its contract on every input, and the pad token among the keys of
  \<open>tok2i\<close>. \<open>aligned n\<close> says that the three shuffled arrays have \<open>n\<close> rows each.
\<close>

definition trainer_ready :: "('t, 'f, 'ls, 'tl) trainer \<Rightarrow> bool" where
  "trainer_ready self =
     (0 < self_bsz self
      \<and> (\<forall>lens. torch_sort_contract lens (torch_sort_descending self lens))
      \<and> PAD_TOKEN (self_tokens self) \<in> dom (tok2i (self_action_obs_dict self)))"

definition aligned :: "nat \<Rightarrow> ('f, 'ls, 'tl, 'z) dataset_scheme \<Rightarrow> bool" where
  "aligned n d = (length (Xs d) = n \<and> length (tourist_locs d) = n \<and> length (ys d) = n)"

text \<open>
  The validation losses handed to \<open>lr_scheduler.step\<close>, read off the log of calls; and
  the rows left by the shuffles of a list of epochs, each reading the rows before it at
  the permutation drawn in that epoch.
\<close>

primrec lr_losses :: "call list \<Rightarrow> real list" where
  "lr_losses [] = []"
| "lr_losses (c # cs) = (case c of LrSchedulerStep v \<Rightarrow> v # lr_losses cs | _ \<Rightarrow> lr_losses cs)"

definition reshuffle :: "(nat \<Rightarrow> nat list) \<Rightarrow> nat list \<Rightarrow> 'a list \<Rightarrow> 'a list" where
  "reshuffle draw epochs rows = foldl (\<lambda>r e. map (\<lambda>i. r ! i) (draw e)) rows epochs"

text \<open>Example values used to run the definitions.\<close>

definition example_tokens :: "string special_tokens" where
  "example_tokens =
     \<lparr> START_TOKEN = ''__START__'', END_TOKEN = ''__END__'',
       UNK_TOKEN = ''__UNK__'', PAD_TOKEN = ''__PAD__'' \<rparr>"

definition example_loader :: "string \<Rightarrow> loader_args \<Rightarrow> int list" where
  "example_loader nb a = (case a of AtLoc l \<Rightarrow> l | AtXY x y \<Rightarrow> [x, y])"

definition example_sort :: "nat list \<Rightarrow> nat list \<times> nat list" where
  "example_sort xs =
     (let idxs = sort_key (\<lambda>i. - int (xs ! i)) [0..<length xs]
      in (map (\<lambda>i. xs ! i) idxs, idxs))"

definition example_trainer :: "(string, int list, string list, int list) trainer" where
  "example_trainer =
     \<lparr> self_contextlen = None, self_bsz = 2, self_num_epochs = 10, self_valid_patience = 2,
       self_action_obs_dict = mk_dictionary example_tokens 14,
       self_tokens = example_tokens,
       self_feature_loaders = [(''goldstandard'', example_loader), (''resnet'', example_loader)],
       dictionary_encode = (\<lambda>txt include_end. map (\<lambda>c. 4) txt @ (if include_end then [1] else [])),
       dictionary_pad = 0,
       get_landmarks_2d = (\<lambda>nb bnd l. ([nb], take 2 l)),
       step_aware = (\<lambda>act l bnd. if act = 3 then map (\<lambda>x. x + 1) l else l),
       torch_sort_descending = example_sort,
       uninitialized_row = [] \<rparr>"

definition example_config :: config where
  "example_config =
     \<lparr> start_location = [1, 2, 0], boundaries = [0, 0, 3, 3], neighborhood = ''fidi'',
       dialog = [\<lparr> msg_id = ''Guide'', msg_text = ''hi'' \<rparr>,
                 \<lparr> msg_id = ''Tourist'', msg_text = ''hello'' \<rparr>] \<rparr>"

definition example_state :: "(int list, string list, int list) build_state" where
  "example_state =
     \<lparr> Xs = [], tourist_locs = [], landmarks = [], ys = [],
       loc = [1, 2, 0], act_obs_memory = [PyInt 1] \<rparr>"

definition example_Xs :: "int list elem list list" where
  "example_Xs =
     [[ObservationBundle [''goldstandard'' \<mapsto> [1, 2, 0]], PyInt 16],
      [PyInt 1, ObservationBundle [''goldstandard'' \<mapsto> [3, 4, 3]], PyInt 16]]"

definition example_locs :: "int list list" where
  "example_locs = [[1, 2], [3, 4]]"

definition example_ys :: "int list list" where
  "example_ys = [[4, 4, 4, 1], [4, 1]]"

definition example_data :: "(int list, string list, int list) dataset" where
  "example_data = \<lparr> Xs = example_Xs, tourist_locs = example_locs,
                    landmarks = [[''Coffee Shop''], [''Bar'']], ys = example_ys \<rparr>"

definition example_valid :: "nat \<Rightarrow> real" where
  "example_valid e = (if e = 0 then 5 else if e = 1 then 4 else 3)"

definition example_draw :: "nat \<Rightarrow> nat list" where
  "example_draw e = [1, 0]"

definition single_data :: "(int list, string list, int list) dataset" where
  "single_data = \<lparr> Xs = [[ObservationBundle [''goldstandard'' \<mapsto> [1, 2, 0]], PyInt 16]],
                   tourist_locs = [[1, 2]], landmarks = [[''Coffee Shop'']],
                   ys = [[4, 4, 4, 1]] \<rparr>"

definition single_draw :: "nat \<Rightarrow> nat list" where
  "single_draw e = [0]"

section \<open>Vocabulary Index Allocator\<close>

text \<open>
  C5. Built from a landmark vocabulary of size L and an action set of size A, the
  allocator has pad = L + A, start = pad + 1, end = start + 1, unknown = end + 1; the
  four indices are pairwise distinct and contiguous. For L = 11 and A = 3 they are
  14, 15, 16 and 17.
\<close>

theorem allocator_indices:
  "\<exists>d. ActionObservationDictionary_init toks (Some lms) (Some acts) = Inr d
      \<and> pad_idx d = int (length lms) + int (length acts)
      \<and> start_idx d = pad_idx d + 1
      \<and> end_idx d = start_idx d + 1
      \<and> unk_idx d = end_idx d + 1
      \<and> distinct [pad_idx d, start_idx d, end_idx d, unk_idx d]
      \<and> (length lms = 11 \<and> length acts = 3 \<longrightarrow>
           pad_idx d = 14 \<and> start_idx d = 15 \<and> end_idx d = 16 \<and> unk_idx d = 17)"
  by (simp add: ActionObservationDictionary_init_def py_len_def mk_dictionary_def Let_def)

theorem allocator_indices_witness:
  "\<exists>d. ActionObservationDictionary_init example_tokens
          (Some [0, 1, 2, 3, 4, 5, 6, 7, 8, 9, 10 :: nat]) (Some [1, 2, 3 :: int]) = Inr d
      \<and> pad_idx d = 14 \<and> start_idx d = 15 \<and> end_idx d = 16 \<and> unk_idx d = 17"
  using allocator_indices
          [of example_tokens "[0, 1, 2, 3, 4, 5, 6, 7, 8, 9, 10 :: nat]" "[1, 2, 3 :: int]"]
  by auto

text \<open>
  C6 (as the code has it). \<open>__init__\<close> checks nothing: construction fails exactly when
  one of the two collections is unknown (\<open>None\<close>, on which \<open>len\<close> raises), and succeeds
  for collections of every size, the empty ones included.
\<close>

theorem allocator_fails_iff_unknown:
  "isl (ActionObservationDictionary_init toks lms acts) = (lms = None \<or> acts = None)"
  by (simp add: ActionObservationDictionary_init_def py_len_def split: option.splits)

theorem allocator_empty_counterexample:
  "ActionObservationDictionary_init example_tokens (Some ([] :: nat list)) (Some ([] :: int list))
     = Inr (mk_dictionary example_tokens 0)"
  by (simp add: ActionObservationDictionary_init_def py_len_def)

section \<open>Trajectory Segmenter\<close>

text \<open>
  C1 (what the code does). The forward command is the token 3 of \<open>get_action\<close>, and
  the segmenter tests \<open>act == 2\<close>: a forward turn steps the location and appends the
  action only, with no landmark set and no observation, while a turn-right turn (token
  2) gets both (shown with the gold-standard loader alone).
\<close>

theorem forward_turn_appends_no_observation:
  "get_action ''ACTION:FORWARD'' = Some 3
   \<and> get_action ''ACTION:TURNRIGHT'' = Some 2
   \<and> process_msg self nb bnd \<lparr> msg_id = ''Tourist'', msg_text = ''ACTION:FORWARD'' \<rparr> st
       = Inr (st\<lparr> loc := step_aware self 3 (loc st) bnd,
                 act_obs_memory :=
                   deque_append (self_contextlen self) (act_obs_memory st) (PyInt 3) \<rparr>)
   \<and> process_msg (self\<lparr> self_feature_loaders := [(''goldstandard'', g)] \<rparr>) nb bnd
         \<lparr> msg_id = ''Tourist'', msg_text = ''ACTION:TURNRIGHT'' \<rparr> st
       = Inr (st\<lparr> loc := step_aware self 2 (loc st) bnd,
                 landmarks := landmarks st
                    @ [fst (get_landmarks_2d self nb bnd (step_aware self 2 (loc st) bnd))],
                 act_obs_memory :=
                   deque_append (self_contextlen self)
                     (deque_append (self_contextlen self) (act_obs_memory st) (PyInt 2))
                     (ObservationBundle
                        [''goldstandard'' \<mapsto> g nb (AtLoc (step_aware self 2 (loc st) bnd))]) \<rparr>)"
  by (simp add: process_msg_def get_action_def apply_action_def get_features_def Let_def
        split: prod.splits)

lemma process_dialog_skip:
  "\<forall>x \<in> set ms. msg_id x \<noteq> ''Tourist'' \<Longrightarrow> process_dialog self nb bnd ms st = Inr st"
  by (induction ms) (simp_all add: process_msg_def)

lemma process_dialog_append:
  "process_dialog self nb bnd (ms @ ms') st =
     (case process_dialog self nb bnd ms st of
        Inl e \<Rightarrow> Inl e
      | Inr st' \<Rightarrow> process_dialog self nb bnd ms' st')"
  by (induction ms arbitrary: st) (simp_all split: sum.splits)

lemma end_marker_lookup:
  "distinct [START_TOKEN toks, END_TOKEN toks, PAD_TOKEN toks, UNK_TOKEN toks] \<Longrightarrow>
   py_getitem (tok2i (mk_dictionary toks p)) (END_TOKEN toks) = Inr (p + 2)"
  by (auto simp: py_getitem_def mk_dictionary_def Let_def)

lemma pad_lookup:
  "distinct [START_TOKEN toks, END_TOKEN toks, PAD_TOKEN toks, UNK_TOKEN toks] \<Longrightarrow>
   py_getitem (tok2i (mk_dictionary toks p)) (PAD_TOKEN toks) = Inr p"
  by (auto simp: py_getitem_def mk_dictionary_def Let_def)

lemma build_obs_emb_total:
  "2 \<le> length l \<Longrightarrow> \<exists>obs_emb. build_obs_emb loaders nb l acc = Inr obs_emb"
  by (induction loaders nb l acc rule: build_obs_emb.induct)
     (auto simp: get_features_def py_index_def)

lemma emit_example_eq:
  assumes dict: "self_action_obs_dict self = mk_dictionary (self_tokens self) p"
    and toks: "distinct [START_TOKEN (self_tokens self), END_TOKEN (self_tokens self),
                         PAD_TOKEN (self_tokens self), UNK_TOKEN (self_tokens self)]"
    and obs: "build_obs_emb (self_feature_loaders self) nb (loc st) Map.empty = Inr obs_emb"
  shows "emit_example self nb bnd txt st =
           Inr (st\<lparr> landmarks := landmarks st @ [fst (get_landmarks_2d self nb bnd (loc st))],
                    Xs := Xs st @ [deque_append (self_contextlen self) (act_obs_memory st)
                                     (ObservationBundle obs_emb) @ [PyInt (p + 2)]],
                    ys := ys st @ [dictionary_encode self txt True],
                    tourist_locs := tourist_locs st @ [snd (get_landmarks_2d self nb bnd (loc st))],
                    act_obs_memory := [] \<rparr>)"
  using end_marker_lookup [OF toks, of p]
  by (simp add: emit_example_def obs dict Let_def split: prod.splits)

text \<open>
  C7 (amended). A tourist turn that is free text emits exactly one example: its
  trajectory is the window after the observation of the current location has been
  appended to it, followed by the end marker; its location is the coordinate that the
  landmark lookup returns for the current location (which does not move); its target is
  the text encoded with \<open>include_end=True\<close>; the window is then empty. When the context
  length is not 0, a dialogue whose only tourist turn is this utterance yields exactly
  one example, with the trajectory [observation, end marker].
\<close>

theorem free_text_turn_emits_example:
  assumes tourist: "msg_id m = ''Tourist''"
    and free: "get_action (msg_text m) = None"
    and dict: "self_action_obs_dict self = mk_dictionary (self_tokens self) p"
    and toks: "distinct [START_TOKEN (self_tokens self), END_TOKEN (self_tokens self),
                         PAD_TOKEN (self_tokens self), UNK_TOKEN (self_tokens self)]"
    and obs: "build_obs_emb (self_feature_loaders self) nb (loc st) Map.empty = Inr obs_emb"
  shows "process_msg self nb bnd m st =
           Inr (st\<lparr> landmarks := landmarks st @ [fst (get_landmarks_2d self nb bnd (loc st))],
                    Xs := Xs st @ [deque_append (self_contextlen self) (act_obs_memory st)
                                     (ObservationBundle obs_emb) @ [PyInt (end_idx (self_action_obs_dict self))]],
                    ys := ys st @ [dictionary_encode self (msg_text m) True],
                    tourist_locs := tourist_locs st @ [snd (get_landmarks_2d self nb bnd (loc st))],
                    act_obs_memory := [] \<rparr>)
       \<and> (self_contextlen self \<noteq> Some 0 \<longrightarrow>
            (\<forall>(before :: msg list) (after :: msg list).
               (\<forall>x \<in> set (before @ after). msg_id x \<noteq> ''Tourist'') \<longrightarrow>
               load_data self
                 [\<lparr> start_location = loc st, boundaries = bnd, neighborhood = nb,
                    dialog = before @ [m] @ after \<rparr>] None temp_build =
               Inr \<lparr> Xs = [[ObservationBundle obs_emb, PyInt (end_idx (self_action_obs_dict self))]],
                     tourist_locs = [snd (get_landmarks_2d self nb bnd (loc st))],
                     landmarks = [fst (get_landmarks_2d self nb bnd (loc st))],
                     ys = [dictionary_encode self (msg_text m) True] \<rparr>))"
proof -
  have e: "end_idx (self_action_obs_dict self) = p + 2"
    by (simp add: dict mk_dictionary_def Let_def)
  have step: "\<And>s. loc s = loc st \<Longrightarrow> process_msg self nb bnd m s =
           Inr (s\<lparr> landmarks := landmarks s @ [fst (get_landmarks_2d self nb bnd (loc st))],
                    Xs := Xs s @ [deque_append (self_contextlen self) (act_obs_memory s)
                                     (ObservationBundle obs_emb) @ [PyInt (p + 2)]],
                    ys := ys s @ [dictionary_encode self (msg_text m) True],
                    tourist_locs := tourist_locs s @ [snd (get_landmarks_2d self nb bnd (loc st))],
                    act_obs_memory := [] \<rparr>)"
    using emit_example_eq [OF dict toks, of nb _ obs_emb bnd "msg_text m"] obs
    by (simp add: process_msg_def tourist free)
  show ?thesis
  proof (intro conjI impI allI)
    show "process_msg self nb bnd m st =
           Inr (st\<lparr> landmarks := landmarks st @ [fst (get_landmarks_2d self nb bnd (loc st))],
                    Xs := Xs st @ [deque_append (self_contextlen self) (act_obs_memory st)
                                     (ObservationBundle obs_emb) @ [PyInt (end_idx (self_action_obs_dict self))]],
                    ys := ys st @ [dictionary_encode self (msg_text m) True],
                    tourist_locs := tourist_locs st @ [snd (get_landmarks_2d self nb bnd (loc st))],
                    act_obs_memory := [] \<rparr>)"
      using step [of st] by (simp add: e)
  next
    fix before after :: "msg list"
    assume cap: "self_contextlen self \<noteq> Some 0"
      and others: "\<forall>x \<in> set (before @ after). msg_id x \<noteq> ''Tourist''"
    have b: "\<And>s. process_dialog self nb bnd before s = Inr s"
      and a: "\<And>s. process_dialog self nb bnd after s = Inr s"
      using others by (simp_all add: process_dialog_skip)
    have window: "deque_append (self_contextlen self) [] (ObservationBundle obs_emb)
                    = [ObservationBundle obs_emb]"
      using cap by (cases "self_contextlen self") (auto simp: deque_append_def)
    show "load_data self
                 [\<lparr> start_location = loc st, boundaries = bnd, neighborhood = nb,
                    dialog = before @ [m] @ after \<rparr>] None temp_build =
               Inr \<lparr> Xs = [[ObservationBundle obs_emb, PyInt (end_idx (self_action_obs_dict self))]],
                     tourist_locs = [snd (get_landmarks_2d self nb bnd (loc st))],
                     landmarks = [fst (get_landmarks_2d self nb bnd (loc st))],
                     ys = [dictionary_encode self (msg_text m) True] \<rparr>"
      by (simp add: load_data_def process_config_def process_dialog_append b a step window e)
  qed
qed


theorem free_text_turn_emits_example_witness:
  "msg_id \<lparr> msg_id = ''Tourist'', msg_text = ''hello'' \<rparr> = ''Tourist''
   \<and> get_action (msg_text \<lparr> msg_id = ''Tourist'', msg_text = ''hello'' \<rparr>) = None
   \<and> self_contextlen example_trainer \<noteq> Some 0
   \<and> process_msg example_trainer ''fidi'' [0, 0, 3, 3]
        \<lparr> msg_id = ''Tourist'', msg_text = ''hello'' \<rparr> example_state =
       Inr (example_state
              \<lparr> landmarks := [[''fidi'']],
                Xs := [[PyInt 1,
                        ObservationBundle [''goldstandard'' \<mapsto> [1, 2, 0], ''resnet'' \<mapsto> [1, 2]],
                        PyInt 16]],
                ys := [[4, 4, 4, 4, 4, 1]],
                tourist_locs := [[1, 2]],
                act_obs_memory := [] \<rparr>)
   \<and> load_data example_trainer [example_config] None True =
       Inr \<lparr> Xs = [[ObservationBundle [''goldstandard'' \<mapsto> [1, 2, 0], ''resnet'' \<mapsto> [1, 2]],
                     PyInt 16]],
             tourist_locs = [[1, 2]],
             landmarks = [[''fidi'']],
             ys = [[4, 4, 4, 4, 4, 1]] \<rparr>"
proof -
  let ?m = "\<lparr> msg_id = ''Tourist'', msg_text = ''hello'' \<rparr>"
  let ?obs = "[''goldstandard'' \<mapsto> [1, 2, 0 :: int], ''resnet'' \<mapsto> [1, 2]]"
  have h1: "msg_id ?m = ''Tourist''" by simp
  have h2: "get_action (msg_text ?m) = None" by (simp add: get_action_def)
  have h3: "self_action_obs_dict example_trainer = mk_dictionary (self_tokens example_trainer) 14"
    by (simp add: example_trainer_def)
  have h4: "distinct [START_TOKEN (self_tokens example_trainer), END_TOKEN (self_tokens example_trainer),
                      PAD_TOKEN (self_tokens example_trainer), UNK_TOKEN (self_tokens example_trainer)]"
    by (simp add: example_trainer_def example_tokens_def)
  have h5: "build_obs_emb (self_feature_loaders example_trainer) ''fidi'' (loc example_state) Map.empty
              = Inr ?obs"
    by (simp add: example_trainer_def example_state_def get_features_def py_index_def
          example_loader_def)
  have cap: "self_contextlen example_trainer \<noteq> Some 0"
    by (simp add: example_trainer_def)
  note T = free_text_turn_emits_example [OF h1 h2 h3 h4 h5, of "[0, 0, 3, 3]" True]
  have vals: "get_landmarks_2d example_trainer ''fidi'' [0, 0, 3, 3] (loc example_state) = ([''fidi''], [1, 2])"
       "dictionary_encode example_trainer ''hello'' True = [4, 4, 4, 4, 4, 1]"
       "end_idx (self_action_obs_dict example_trainer) = 16"
       "deque_append (self_contextlen example_trainer) (act_obs_memory example_state)
          (ObservationBundle ?obs) = [PyInt 1, ObservationBundle ?obs]"
    by (simp_all add: example_trainer_def example_state_def mk_dictionary_def deque_append_def)
  have A: "process_msg example_trainer ''fidi'' [0, 0, 3, 3] ?m example_state =
       Inr (example_state
              \<lparr> landmarks := [[''fidi'']],
                Xs := [[PyInt 1, ObservationBundle ?obs, PyInt 16]],
                ys := [[4, 4, 4, 4, 4, 1]],
                tourist_locs := [[1, 2]],
                act_obs_memory := [] \<rparr>)"
    using conjunct1 [OF T] by (simp add: vals) (simp add: example_state_def)
  have others: "\<forall>x \<in> set ([\<lparr> msg_id = ''Guide'', msg_text = ''hi'' \<rparr>] @ []). msg_id x \<noteq> ''Tourist''"
    by simp
  have cfg: "example_config =
        \<lparr> start_location = loc example_state, boundaries = [0, 0, 3, 3], neighborhood = ''fidi'',
          dialog = [\<lparr> msg_id = ''Guide'', msg_text = ''hi'' \<rparr>] @ [?m] @ [] \<rparr>"
    by (simp add: example_config_def example_state_def)
  have B: "load_data example_trainer [example_config] None True =
       Inr \<lparr> Xs = [[ObservationBundle ?obs, PyInt 16]],
             tourist_locs = [[1, 2]],
             landmarks = [[''fidi'']],
             ys = [[4, 4, 4, 4, 4, 1]] \<rparr>"
    using conjunct2 [OF T, THEN mp, OF cap, THEN spec, THEN spec, THEN mp, OF others]
    unfolding cfg by (simp add: vals)
  show ?thesis using h1 h2 cap A B by blast
qed

text \<open>
  With a context length of 0 the window holds nothing, and the same dialogue yields the
  end marker alone.
\<close>

theorem zero_context_counterexample:
  "load_data (example_trainer\<lparr> self_contextlen := Some 0 \<rparr>) [example_config] None True =
     Inr \<lparr> Xs = [[PyInt 16]], tourist_locs = [[1, 2]], landmarks = [[''fidi'']],
           ys = [[4, 4, 4, 4, 4, 1]] \<rparr>"
  by (simp add: load_data_def process_config_def example_config_def process_msg_def
        get_action_def emit_example_def example_trainer_def get_features_def py_index_def
        example_loader_def deque_append_def py_getitem_def mk_dictionary_def
        example_tokens_def)

section \<open>Batch Assembler\<close>

lemma py_max_Max: "xs \<noteq> [] \<Longrightarrow> py_max xs = Inr (Max (set xs))"
proof (cases xs)
  case (Cons a list)
  show ?thesis
    using Max.set_eq_fold [of a list] by (simp add: py_max_def Cons)
qed simp

lemma place_step:
  "i < length xs \<Longrightarrow>
   take (Suc i) (xs[i := r]) @ rs @ drop (Suc (i + n)) (xs[i := r])
     = take i xs @ (r # rs) @ drop (Suc (i + n)) xs"
  by (simp add: take_Suc_conv_app_nth)

lemma sort_loop_closed:
  assumes "\<forall>idx \<in> set idxs. idx < length Xb \<and> idx < length yb \<and> idx < length locb"
    and "i + length idxs \<le> length (sorted_X_batch acc)"
    and "i + length idxs \<le> length (sorted_y_batch acc)"
    and "i + length idxs \<le> length y_lens"
    and "i + length idxs \<le> length (sorted_tourist_loc_batch acc)"
    and "i + length idxs \<le> length ssl"
    and "i + length idxs \<le> length (sorted_mask acc)"
  shows "sort_loop Xb yb y_lens locb ssl i idxs acc =
     Inr \<lparr> sorted_X_batch = take i (sorted_X_batch acc) @ map (\<lambda>j. Xb ! j) idxs
                               @ drop (i + length idxs) (sorted_X_batch acc),
           sorted_y_batch = take i (sorted_y_batch acc) @ map (\<lambda>j. yb ! j) idxs
                               @ drop (i + length idxs) (sorted_y_batch acc),
           sorted_y_lens = sorted_y_lens acc @ take (length idxs) (drop i y_lens),
           sorted_tourist_loc_batch =
             take i (sorted_tourist_loc_batch acc) @ map (\<lambda>j. locb ! j) idxs
               @ drop (i + length idxs) (sorted_tourist_loc_batch acc),
           sorted_mask =
             take i (sorted_mask acc)
               @ map (\<lambda>k. set_ones (ssl ! k) (sorted_mask acc ! k)) [i..<i + length idxs]
               @ drop (i + length idxs) (sorted_mask acc) \<rparr>"
  using assms
proof (induction idxs arbitrary: i acc)
  case Nil
  then show ?case by simp
next
  case (Cons idx rest)
  let ?acc' = "acc\<lparr> sorted_X_batch := (sorted_X_batch acc)[i := Xb ! idx],
                   sorted_y_batch := (sorted_y_batch acc)[i := yb ! idx],
                   sorted_y_lens := sorted_y_lens acc @ [y_lens ! i],
                   sorted_tourist_loc_batch := (sorted_tourist_loc_batch acc)[i := locb ! idx],
                   sorted_mask := (sorted_mask acc)
                                    [i := set_ones (ssl ! i) (sorted_mask acc ! i)] \<rparr>"
  have step: "sort_loop Xb yb y_lens locb ssl i (idx # rest) acc
                = sort_loop Xb yb y_lens locb ssl (Suc i) rest ?acc'"
    using Cons.prems by simp
  have ylens: "[y_lens ! i] @ take (length rest) (drop (Suc i) y_lens)
                 = take (Suc (length rest)) (drop i y_lens)"
    using Cons.prems(4) by (simp add: Cons_nth_drop_Suc take_Suc_Cons [symmetric] del: take_Suc_Cons)
  have masks: "map (\<lambda>k. set_ones (ssl ! k) ((sorted_mask acc)[i := v] ! k)) [Suc i..<Suc i + length rest]
                 = map (\<lambda>k. set_ones (ssl ! k) (sorted_mask acc ! k)) [Suc i..<Suc i + length rest]" for v
  proof (rule map_cong)
    fix k assume "k \<in> set [Suc i..<Suc i + length rest]"
    then have "i \<noteq> k" by auto
    then show "set_ones (ssl ! k) ((sorted_mask acc)[i := v] ! k)
                 = set_ones (ssl ! k) (sorted_mask acc ! k)"
      by simp
  qed simp
  have upt: "[i..<i + length (idx # rest)] = i # [Suc i..<Suc i + length rest]"
    by (simp add: upt_conv_Cons del: upt_Suc)
  have IH: "sort_loop Xb yb y_lens locb ssl (Suc i) rest ?acc' =
     Inr \<lparr> sorted_X_batch = take (Suc i) (sorted_X_batch ?acc') @ map (\<lambda>j. Xb ! j) rest
                               @ drop (Suc i + length rest) (sorted_X_batch ?acc'),
           sorted_y_batch = take (Suc i) (sorted_y_batch ?acc') @ map (\<lambda>j. yb ! j) rest
                               @ drop (Suc i + length rest) (sorted_y_batch ?acc'),
           sorted_y_lens = sorted_y_lens ?acc' @ take (length rest) (drop (Suc i) y_lens),
           sorted_tourist_loc_batch =
             take (Suc i) (sorted_tourist_loc_batch ?acc') @ map (\<lambda>j. locb ! j) rest
               @ drop (Suc i + length rest) (sorted_tourist_loc_batch ?acc'),
           sorted_mask =
             take (Suc i) (sorted_mask ?acc')
               @ map (\<lambda>k. set_ones (ssl ! k) (sorted_mask ?acc' ! k)) [Suc i..<Suc i + length rest]
               @ drop (Suc i + length rest) (sorted_mask ?acc') \<rparr>"
    using Cons.prems by (intro Cons.IH) simp_all
  have lt: "i < length (sorted_X_batch acc)" "i < length (sorted_y_batch acc)"
    "i < length (sorted_tourist_loc_batch acc)" "i < length (sorted_mask acc)"
    using Cons.prems by simp_all
  show ?case
    unfolding step IH upt
    using lt ylens
    by (simp add: take_Suc_conv_app_nth masks del: upt_Suc)
qed

lemma contract_facts:
  assumes "torch_sort_contract xs (vals, idxs)"
  shows "mset idxs = mset [0..<length xs]"
    and "length idxs = length xs"
    and "set idxs = {0..<length xs}"
    and "distinct idxs"
    and "length vals = length xs"
    and "vals = rev (sort xs)"
proof -
  from assms have s: "sort idxs = [0..<length xs]"
    and v: "vals = map (\<lambda>i. xs ! i) idxs" and d: "sorted (rev vals)"
    unfolding torch_sort_contract_def by blast+
  have "mset (sort idxs) = mset idxs" by simp
  with s show m: "mset idxs = mset [0..<length xs]" by simp
  from m show l: "length idxs = length xs"
    using mset_eq_length by fastforce
  from m show "set idxs = {0..<length xs}"
    using mset_eq_setD by fastforce
  from m show "distinct idxs"
    using mset_eq_imp_distinct_iff [OF m] by simp
  from l v show "length vals = length xs" by simp
  have "mset vals = image_mset (\<lambda>i. xs ! i) (mset idxs)"
    by (simp add: v)
  also have "\<dots> = mset (map (\<lambda>i. xs ! i) [0..<length xs])"
    by (simp add: m)
  also have "\<dots> = mset xs"
    by (simp add: map_nth)
  finally have "mset (rev vals) = mset xs" by simp
  from properties_for_sort [OF this d] show "vals = rev (sort xs)"
    by (metis rev_rev_ident)
qed

lemma create_batch_closed:
  assumes ready: "batch_ready self Xs_in locs ys_in"
    and srt: "torch_sort_descending self (map length Xs_in) = (vals, idxs)"
  shows "create_batch self Xs_in locs ys_in =
     Inr \<lparr> X_batch = map (\<lambda>j. pad_row (Max (set (map length Xs_in))) (PyInt 0) (Xs_in ! j)) idxs,
           mask = map (\<lambda>v. set_ones v (replicate (Max (set (map length Xs_in))) 0)) vals,
           t_locs_batch = map (\<lambda>j. locs ! j) idxs,
           y_batch = map (\<lambda>j. pad_row (Max (set (map length ys_in))) (dictionary_pad self)
                                 (ys_in ! j)) idxs,
           X_lengths = rev (sort (map length Xs_in)),
           y_lengths = map length ys_in,
           max_len = Max (set (map length ys_in)) \<rparr>"
proof -
  let ?N = "length Xs_in"
  define mx where "mx = Max (set (map length Xs_in))"
  define my where "my = Max (set (map length ys_in))"
  from ready have ne: "Xs_in \<noteq> []" and ly: "length ys_in = ?N" and ll: "length locs = ?N"
    and c: "torch_sort_contract (map length Xs_in) (vals, idxs)"
    and pd: "PAD_TOKEN (self_tokens self) \<in> dom (tok2i (self_action_obs_dict self))"
    by (simp_all add: batch_ready_def srt)
  from ly ne have yne: "ys_in \<noteq> []" by auto
  note cf = contract_facts [OF c, simplified]
  from pd obtain pad where
    pad: "py_getitem (tok2i (self_action_obs_dict self)) (PAD_TOKEN (self_tokens self)) = Inr pad"
    by (auto simp: py_getitem_def)
  have mx: "py_max (map length Xs_in) = Inr mx"
    using ne unfolding mx_def by (intro py_max_Max) simp
  have my: "py_max (map length ys_in) = Inr my"
    using yne unfolding my_def by (intro py_max_Max) simp
  have in_range: "\<forall>idx \<in> set idxs. idx < ?N" using cf(3) by simp
  have masks: "map (\<lambda>k. set_ones (vals ! k) (replicate ?N (replicate mx 0) ! k)) [0..<?N]
                 = map (\<lambda>v. set_ones v (replicate mx 0)) vals"
    using cf(5) by (intro nth_equalityI) simp_all
  have loop: "sort_loop (map (pad_row mx (PyInt 0)) Xs_in)
                (map (pad_row my (dictionary_pad self)) ys_in) (map length ys_in) locs vals 0 idxs
                \<lparr> sorted_X_batch = replicate ?N (replicate mx (PyInt pad)),
                  sorted_y_batch = replicate ?N (replicate my 0),
                  sorted_y_lens = [],
                  sorted_tourist_loc_batch = replicate (length locs) (uninitialized_row self),
                  sorted_mask = replicate ?N (replicate mx 0) \<rparr>
     = Inr \<lparr> sorted_X_batch = map (\<lambda>j. pad_row mx (PyInt 0) (Xs_in ! j)) idxs,
             sorted_y_batch = map (\<lambda>j. pad_row my (dictionary_pad self) (ys_in ! j)) idxs,
             sorted_y_lens = map length ys_in,
             sorted_tourist_loc_batch = map (\<lambda>j. locs ! j) idxs,
             sorted_mask = map (\<lambda>v. set_ones v (replicate mx 0)) vals \<rparr>"
    apply (subst sort_loop_closed)
    using in_range cf(2) cf(5) ly ll apply simp_all
    using masks in_range ly apply simp
    done
  have "create_batch self Xs_in locs ys_in =
     Inr \<lparr> X_batch = map (\<lambda>j. pad_row mx (PyInt 0) (Xs_in ! j)) idxs,
           mask = map (\<lambda>v. set_ones v (replicate mx 0)) vals,
           t_locs_batch = map (\<lambda>j. locs ! j) idxs,
           y_batch = map (\<lambda>j. pad_row my (dictionary_pad self) (ys_in ! j)) idxs,
           X_lengths = rev (sort (map length Xs_in)),
           y_lengths = map length ys_in,
           max_len = my \<rparr>"
    by (simp add: create_batch_def Let_def mx my ly srt pad loop)
  then show ?thesis
    unfolding mx_def my_def .
qed

lemma set_ones_zero_row:
  "v \<le> mx \<Longrightarrow> set_ones v (replicate mx 0) = pad_row mx 0 (replicate v 1)"
  by (simp add: set_ones_def pad_row_def min_def)

lemma example_ready: "batch_ready example_trainer example_Xs example_locs example_ys"
  by (simp add: batch_ready_def example_Xs_def example_locs_def example_ys_def
        example_trainer_def torch_sort_contract_def example_sort_def upt_conv_Cons
        mk_dictionary_def example_tokens_def)

lemma example_sorted: "torch_sort_descending example_trainer (map length example_Xs) = ([3, 2], [1, 0])"
  by (simp add: example_Xs_def example_trainer_def example_sort_def upt_conv_Cons)

lemma create_batch_sorted:
  assumes ready: "batch_ready self Xs_in locs ys_in"
  shows "\<exists>b vals idxs.
           create_batch self Xs_in locs ys_in = Inr b
         \<and> torch_sort_descending self (map length Xs_in) = (vals, idxs)
         \<and> length idxs = length Xs_in \<and> distinct idxs \<and> set idxs = {0..<length Xs_in}
         \<and> X_batch b = map (\<lambda>j. pad_row (Max (set (map length Xs_in))) (PyInt 0) (Xs_in ! j)) idxs
         \<and> mask b = map (\<lambda>j. pad_row (Max (set (map length Xs_in))) 0
                                 (replicate (length (Xs_in ! j)) 1)) idxs
         \<and> t_locs_batch b = map (\<lambda>j. locs ! j) idxs
         \<and> y_batch b = map (\<lambda>j. pad_row (Max (set (map length ys_in))) (dictionary_pad self)
                                    (ys_in ! j)) idxs
         \<and> X_lengths b = map (\<lambda>j. length (Xs_in ! j)) idxs
         \<and> sorted (rev (X_lengths b))
         \<and> y_lengths b = map length ys_in
         \<and> max_len b = Max (set (map length ys_in))"
proof -
  obtain vals idxs where srt: "torch_sort_descending self (map length Xs_in) = (vals, idxs)"
    by (cases "torch_sort_descending self (map length Xs_in)")
  from ready have c: "torch_sort_contract (map length Xs_in) (vals, idxs)"
    by (simp add: batch_ready_def srt)
  note cf = contract_facts [OF c, simplified]
  from c have vals: "vals = map (\<lambda>j. length (Xs_in ! j)) idxs"
    using cf(3) by (simp add: torch_sort_contract_def)
  have le: "\<And>j. j \<in> set idxs \<Longrightarrow> length (Xs_in ! j) \<le> Max (set (map length Xs_in))"
    using cf(3) by (intro Max_ge) auto
  have masks: "map (\<lambda>v. set_ones v (replicate (Max (set (map length Xs_in))) 0)) vals
       = map (\<lambda>j. pad_row (Max (set (map length Xs_in))) 0 (replicate (length (Xs_in ! j)) 1)) idxs"
    unfolding vals map_map by (rule map_cong) (simp_all add: set_ones_zero_row le del: set_map)
  have lens: "rev (sort (map length Xs_in)) = map (\<lambda>j. length (Xs_in ! j)) idxs"
    using cf(6) vals by simp
  from c have "sorted (rev vals)"
    unfolding torch_sort_contract_def by blast
  then have desc: "sorted (rev (map (\<lambda>j. length (Xs_in ! j)) idxs))"
    by (simp only: vals)
  define b where "b = \<lparr> X_batch = map (\<lambda>j. pad_row (Max (set (map length Xs_in))) (PyInt 0) (Xs_in ! j)) idxs,
           mask = map (\<lambda>v. set_ones v (replicate (Max (set (map length Xs_in))) 0)) vals,
           t_locs_batch = map (\<lambda>j. locs ! j) idxs,
           y_batch = map (\<lambda>j. pad_row (Max (set (map length ys_in))) (dictionary_pad self)
                                 (ys_in ! j)) idxs,
           X_lengths = rev (sort (map length Xs_in)),
           y_lengths = map length ys_in,
           max_len = Max (set (map length ys_in)) \<rparr>"
  have cb: "create_batch self Xs_in locs ys_in = Inr b"
    unfolding b_def by (rule create_batch_closed [OF ready srt])
  have fields:
    "X_batch b = map (\<lambda>j. pad_row (Max (set (map length Xs_in))) (PyInt 0) (Xs_in ! j)) idxs"
    "mask b = map (\<lambda>j. pad_row (Max (set (map length Xs_in))) 0
                            (replicate (length (Xs_in ! j)) 1)) idxs"
    "t_locs_batch b = map (\<lambda>j. locs ! j) idxs"
    "y_batch b = map (\<lambda>j. pad_row (Max (set (map length ys_in))) (dictionary_pad self)
                               (ys_in ! j)) idxs"
    "X_lengths b = map (\<lambda>j. length (Xs_in ! j)) idxs"
    "y_lengths b = map length ys_in"
    "max_len b = Max (set (map length ys_in))"
    by (simp_all add: b_def masks lens del: set_map)
  show ?thesis
    apply (rule exI [of _ b], rule exI [of _ vals], rule exI [of _ idxs])
    using cb srt cf(2,3,4) fields desc
    apply (simp del: set_map)
    done
qed

text \<open>
  C8. For a batch of N \<ge> 1 examples, the indices that the sort returns hold every row
  index 0, ..., N - 1 exactly once; row i of the source grid, of the mask, of the
  location array and of the target grid is the row of example \<open>idxs ! i\<close> in each of the
  four; and the returned source lengths are those of the rows in that order, and
  non-increasing.
\<close>

theorem sort_permutation_applied_uniformly:
  assumes ready: "batch_ready self Xs_in locs ys_in"
  shows "\<exists>b vals idxs.
           create_batch self Xs_in locs ys_in = Inr b
         \<and> torch_sort_descending self (map length Xs_in) = (vals, idxs)
         \<and> length idxs = length Xs_in \<and> distinct idxs \<and> set idxs = {0..<length Xs_in}
         \<and> X_batch b = map (\<lambda>j. pad_row (Max (set (map length Xs_in))) (PyInt 0) (Xs_in ! j)) idxs
         \<and> mask b = map (\<lambda>j. pad_row (Max (set (map length Xs_in))) 0
                                 (replicate (length (Xs_in ! j)) 1)) idxs
         \<and> t_locs_batch b = map (\<lambda>j. locs ! j) idxs
         \<and> y_batch b = map (\<lambda>j. pad_row (Max (set (map length ys_in))) (dictionary_pad self)
                                    (ys_in ! j)) idxs
         \<and> X_lengths b = map (\<lambda>j. length (Xs_in ! j)) idxs
         \<and> sorted (rev (X_lengths b))"
  using create_batch_sorted [OF ready] by blast

theorem sort_permutation_applied_uniformly_witness:
  "batch_ready example_trainer example_Xs example_locs example_ys
   \<and> (\<exists>b. create_batch example_trainer example_Xs example_locs example_ys = Inr b
        \<and> X_batch b = [[PyInt 1, ObservationBundle [''goldstandard'' \<mapsto> [3, 4, 3]], PyInt 16],
                        [ObservationBundle [''goldstandard'' \<mapsto> [1, 2, 0]], PyInt 16, PyInt 0]]
        \<and> mask b = [[1, 1, 1], [1, 1, 0]]
        \<and> t_locs_batch b = [[3, 4], [1, 2]]
        \<and> y_batch b = [[4, 1, 0, 0], [4, 4, 4, 1]]
        \<and> X_lengths b = [3, 2])"
proof -
  from sort_permutation_applied_uniformly [OF example_ready]
  obtain b vals idxs where
    b: "create_batch example_trainer example_Xs example_locs example_ys = Inr b"
    and s: "torch_sort_descending example_trainer (map length example_Xs) = (vals, idxs)"
    and r: "X_batch b = map (\<lambda>j. pad_row (Max (set (map length example_Xs))) (PyInt 0) (example_Xs ! j)) idxs"
      "mask b = map (\<lambda>j. pad_row (Max (set (map length example_Xs))) 0
                                 (replicate (length (example_Xs ! j)) 1)) idxs"
      "t_locs_batch b = map (\<lambda>j. example_locs ! j) idxs"
      "y_batch b = map (\<lambda>j. pad_row (Max (set (map length example_ys))) (dictionary_pad example_trainer)
                                    (example_ys ! j)) idxs"
      "X_lengths b = map (\<lambda>j. length (example_Xs ! j)) idxs"
    by blast
  from s have idxs: "idxs = [1, 0]" by (simp add: example_sorted)
  have "X_batch b = [[PyInt 1, ObservationBundle [''goldstandard'' \<mapsto> [3, 4, 3]], PyInt 16],
                        [ObservationBundle [''goldstandard'' \<mapsto> [1, 2, 0]], PyInt 16, PyInt 0]]"
       "mask b = [[1, 1, 1], [1, 1, 0]]"
       "t_locs_batch b = [[3, 4], [1, 2]]"
       "y_batch b = [[4, 1, 0, 0], [4, 4, 4, 1]]"
       "X_lengths b = [3, 2]"
    unfolding r idxs
    by (simp_all add: example_Xs_def example_locs_def example_ys_def pad_row_def
          example_trainer_def numeral_2_eq_2 numeral_3_eq_3)
  with b example_ready show ?thesis by blast
qed

text \<open>
  C2 (what the code does). Every row of the returned source grid is copied whole from
  the grid that was filled with the int 0: a cell beyond the row's source length holds
  0, whatever the pad index is, and a filled cell holds the element of the trajectory
  unchanged.
\<close>

theorem unused_source_cells_hold_zero:
  assumes ready: "batch_ready self Xs_in locs ys_in"
  shows "\<exists>b vals idxs.
           create_batch self Xs_in locs ys_in = Inr b
         \<and> torch_sort_descending self (map length Xs_in) = (vals, idxs)
         \<and> length (X_batch b) = length Xs_in
         \<and> (\<forall>i < length Xs_in.
              length (X_batch b ! i) = Max (set (map length Xs_in))
              \<and> (\<forall>j < Max (set (map length Xs_in)).
                    X_batch b ! i ! j =
                      (if j < length (Xs_in ! (idxs ! i)) then Xs_in ! (idxs ! i) ! j
                       else PyInt 0)))"
proof -
  from create_batch_sorted [OF ready] obtain b vals idxs where
    b: "create_batch self Xs_in locs ys_in = Inr b"
    and s: "torch_sort_descending self (map length Xs_in) = (vals, idxs)"
    and l: "length idxs = length Xs_in" and st: "set idxs = {0..<length Xs_in}"
    and X: "X_batch b = map (\<lambda>j. pad_row (Max (set (map length Xs_in))) (PyInt 0) (Xs_in ! j)) idxs"
    by blast
  have le: "length (Xs_in ! (idxs ! i)) \<le> Max (set (map length Xs_in))" if "i < length Xs_in" for i
  proof -
    from that l st have "idxs ! i < length Xs_in"
      using nth_mem [of i idxs] by auto
    then show ?thesis by (intro Max_ge) auto
  qed
  have cells: "length (X_batch b ! i) = Max (set (map length Xs_in))
        \<and> (\<forall>j < Max (set (map length Xs_in)).
              X_batch b ! i ! j =
                (if j < length (Xs_in ! (idxs ! i)) then Xs_in ! (idxs ! i) ! j else PyInt 0))"
    if "i < length Xs_in" for i
    using that l le [OF that]
    by (simp add: X pad_row_def nth_append del: set_map)
  show ?thesis
    apply (rule exI [of _ b], rule exI [of _ vals], rule exI [of _ idxs])
    using b s l cells by (simp add: X del: set_map)
qed

theorem unused_source_cells_hold_zero_witness:
  "batch_ready example_trainer example_Xs example_locs example_ys
   \<and> py_getitem (tok2i (self_action_obs_dict example_trainer))
        (PAD_TOKEN (self_tokens example_trainer)) = Inr 14
   \<and> (\<exists>b. create_batch example_trainer example_Xs example_locs example_ys = Inr b
         \<and> X_batch b ! 1 ! 2 = PyInt 0)"
proof -
  from unused_source_cells_hold_zero [OF example_ready]
  obtain b vals idxs where
    b: "create_batch example_trainer example_Xs example_locs example_ys = Inr b"
    and s: "torch_sort_descending example_trainer (map length example_Xs) = (vals, idxs)"
    and c: "\<forall>i < length example_Xs.
              length (X_batch b ! i) = Max (set (map length example_Xs))
              \<and> (\<forall>j < Max (set (map length example_Xs)).
                    X_batch b ! i ! j =
                      (if j < length (example_Xs ! (idxs ! i)) then example_Xs ! (idxs ! i) ! j
                       else PyInt 0))"
    by blast
  from s have idxs: "idxs = [1, 0]" by (simp add: example_sorted)
  have "1 < length example_Xs" "2 < Max (set (map length example_Xs))"
    by (simp_all add: example_Xs_def)
  with c have "X_batch b ! 1 ! 2 =
      (if 2 < length (example_Xs ! (idxs ! 1)) then example_Xs ! (idxs ! 1) ! 2 else PyInt 0)"
    by blast
  then have cell: "X_batch b ! 1 ! 2 = PyInt 0"
    by (simp add: idxs example_Xs_def)
  have pad: "py_getitem (tok2i (self_action_obs_dict example_trainer))
        (PAD_TOKEN (self_tokens example_trainer)) = Inr 14"
    by (simp add: example_trainer_def py_getitem_def mk_dictionary_def example_tokens_def)
  from example_ready pad b cell show ?thesis by blast
qed

text \<open>
  C3. The returned list of target lengths is the list of the targets' lengths in the
  order of the input, while row i of the returned target grid is the target of example
  \<open>idxs ! i\<close>.
\<close>

theorem target_lengths_keep_input_order:
  assumes ready: "batch_ready self Xs_in locs ys_in"
  shows "\<exists>b vals idxs.
           create_batch self Xs_in locs ys_in = Inr b
         \<and> torch_sort_descending self (map length Xs_in) = (vals, idxs)
         \<and> y_lengths b = map length ys_in
         \<and> y_batch b = map (\<lambda>j. pad_row (Max (set (map length ys_in))) (dictionary_pad self)
                                    (ys_in ! j)) idxs"
  using create_batch_sorted [OF ready] by blast

theorem target_lengths_keep_input_order_witness:
  "batch_ready example_trainer example_Xs example_locs example_ys
   \<and> map length example_ys = [4, 2]
   \<and> (\<exists>b. create_batch example_trainer example_Xs example_locs example_ys = Inr b
         \<and> y_lengths b = [4, 2]
         \<and> y_batch b = [[4, 1, 0, 0], [4, 4, 4, 1]])"
proof -
  from target_lengths_keep_input_order [OF example_ready]
  obtain b vals idxs where
    b: "create_batch example_trainer example_Xs example_locs example_ys = Inr b"
    and s: "torch_sort_descending example_trainer (map length example_Xs) = (vals, idxs)"
    and r: "y_lengths b = map length example_ys"
      "y_batch b = map (\<lambda>j. pad_row (Max (set (map length example_ys)))
                               (dictionary_pad example_trainer) (example_ys ! j)) idxs"
    by blast
  from s have idxs: "idxs = [1, 0]" by (simp add: example_sorted)
  have "y_lengths b = [4, 2]" "y_batch b = [[4, 1, 0, 0], [4, 4, 4, 1]]"
      "map length example_ys = [4, 2]"
    unfolding r idxs
    by (simp_all add: example_ys_def pad_row_def example_trainer_def numeral_2_eq_2)
  with b example_ready show ?thesis by blast
qed

section \<open>Training Loop Controller\<close>

lemma mset_map_nth_perm:
  assumes "mset p = mset [0..<length zs]"
  shows "mset (map (\<lambda>i. zs ! i) p) = mset zs"
proof -
  have "mset (map (\<lambda>i. zs ! i) p) = image_mset (\<lambda>i. zs ! i) (mset p)" by simp
  also have "\<dots> = mset (map (\<lambda>i. zs ! i) [0..<length zs])" by (simp add: assms)
  also have "\<dots> = mset zs" by (simp add: map_nth)
  finally show ?thesis .
qed

lemma example_sort_contract: "torch_sort_contract lens (example_sort lens)"
proof -
  let ?key = "\<lambda>i. - int (lens ! i)"
  let ?idxs = "sort_key ?key [0..<length lens]"
  have "mset (sort ?idxs) = mset [0..<length lens]" by simp
  then have p: "sort ?idxs = [0..<length lens]"
    by (metis sorted_sort sorted_upt sorted_sort_id properties_for_sort)
  have "sorted (map ?key ?idxs)" by (rule sorted_sort_key)
  then have "sorted_wrt (\<lambda>a b. lens ! a \<ge> lens ! b) ?idxs"
    by (simp add: sorted_map) 
  then have "sorted (rev (map (\<lambda>i. lens ! i) ?idxs))"
    by (simp add: sorted_wrt_rev sorted_wrt_map flip: rev_map)
  with p show ?thesis
    by (simp add: torch_sort_contract_def example_sort_def Let_def)
qed

lemma example_trainer_ready: "trainer_ready example_trainer"
  using example_sort_contract
  by (simp add: trainer_ready_def example_trainer_def mk_dictionary_def example_tokens_def)

lemma batch_starts_ok:
  assumes "0 < bsz"
  shows "\<exists>starts. batch_starts bsz n = Inr starts \<and> (\<forall>jj \<in> set starts. jj < n)
           \<and> (0 < n \<longrightarrow> starts \<noteq> [])"
proof -
  let ?b = "nat bsz"
  from assms have b: "0 < ?b" by simp
  have "k * ?b < n" if "k < (n + ?b - 1) div ?b" for k
  proof -
    from that have "Suc k \<le> (n + ?b - 1) div ?b" by simp
    with b have "Suc k * ?b \<le> n + ?b - 1"
      by (simp only: less_eq_div_iff_mult_less_eq)
    with b show ?thesis by simp
  qed
  moreover have "0 < (n + ?b - 1) div ?b" if "0 < n"
    using that b by (simp add: div_greater_zero_iff)
  ultimately show ?thesis
    using assms by (auto simp: batch_starts_def)
qed

lemma slices_ready:
  assumes "trainer_ready self" and "aligned n \<lparr> Xs = X, tourist_locs = L, landmarks = lm, ys = Y \<rparr>"
    and "jj < n"
  shows "batch_ready self (take (nat (self_bsz self)) (drop jj X))
           (take (nat (self_bsz self)) (drop jj L)) (take (nat (self_bsz self)) (drop jj Y))"
  using assms by (auto simp: trainer_ready_def aligned_def batch_ready_def)

lemma run_batches_ok:
  assumes "trainer_ready self" and "aligned n \<lparr> Xs = X, tourist_locs = L, landmarks = lm, ys = Y \<rparr>"
    and "\<forall>jj \<in> set starts. jj < n"
  shows "\<exists>bs. run_batches self X L Y starts = Inr bs \<and> length bs = length starts"
  using assms(3)
proof (induction starts)
  case Nil
  then show ?case by simp
next
  case (Cons jj rest)
  then have "jj < n" by simp
  from create_batch_sorted [OF slices_ready [OF assms(1,2) this]]
  obtain b where "create_batch self (take (nat (self_bsz self)) (drop jj X))
           (take (nat (self_bsz self)) (drop jj L)) (take (nat (self_bsz self)) (drop jj Y)) = Inr b"
    by blast
  moreover from Cons obtain bs where "run_batches self X L Y rest = Inr bs" "length bs = length rest"
    by auto
  ultimately show ?case by simp
qed

lemma train_epoch_ok:
  assumes ready: "trainer_ready self" and al: "aligned n st" and n: "0 < n"
    and perm: "mset perm = mset [0..<n]"
  shows "train_epoch self perm v st =
           Inr (after_validation self v
                  (st\<lparr> Xs := map (\<lambda>i. Xs st ! i) perm,
                       tourist_locs := map (\<lambda>i. tourist_locs st ! i) perm,
                       ys := map (\<lambda>i. ys st ! i) perm \<rparr>))"
proof -
  from perm have lp: "length perm = n"
    using mset_eq_length by fastforce
  let ?X = "map (\<lambda>i. Xs st ! i) perm"
  let ?L = "map (\<lambda>i. tourist_locs st ! i) perm"
  let ?Y = "map (\<lambda>i. ys st ! i) perm"
  have sh: "shuffle perm (Xs st) (tourist_locs st) (ys st) = Inr (?X, ?L, ?Y)"
    using al by (simp add: shuffle_def aligned_def)
  from ready have "0 < self_bsz self" by (simp add: trainer_ready_def)
  from batch_starts_ok [OF this, of n] n obtain starts where
    st: "batch_starts (self_bsz self) n = Inr starts" "\<forall>jj \<in> set starts. jj < n" "starts \<noteq> []"
    by blast
  have "aligned n \<lparr> Xs = ?X, tourist_locs = ?L, landmarks = landmarks st, ys = ?Y \<rparr>"
    by (simp add: aligned_def lp)
  from run_batches_ok [OF ready this st(2)] obtain bs where
    bs: "run_batches self ?X ?L ?Y starts = Inr bs" "length bs = length starts"
    by blast
  with st(3) have "bs \<noteq> []" by auto
  then show ?thesis
    by (simp add: train_epoch_def sh lp st(1) bs(1))
qed

lemma after_validation_improved:
  "less_best v (best_valid st) \<Longrightarrow>
   after_validation self v st =
     Continue (st\<lparr> calls := calls st @ [EvalEpoch, LrSchedulerStep v],
                   best_valid := Finite v, valid_patience := 0 \<rparr>)"
  by (simp add: after_validation_def Let_def)

lemma after_validation_not_improved:
  "\<not> less_best v (best_valid st) \<Longrightarrow>
   after_validation self v st =
     (if valid_patience st + 1 = self_valid_patience self
      then Return (st\<lparr> calls := calls st @ [EvalEpoch, LrSchedulerStep v, SaveModel, EvalTest],
                       valid_patience := valid_patience st + 1 \<rparr>)
      else Continue (st\<lparr> calls := calls st @ [EvalEpoch, LrSchedulerStep v],
                         valid_patience := valid_patience st + 1 \<rparr>))"
  by (simp add: after_validation_def Let_def)

lemma upt_five: "5 \<le> n \<Longrightarrow> [0..<n] = 0 # 1 # 2 # 3 # 4 # [5..<n]"
  by (simp add: upt_conv_Cons eval_nat_numeral)

lemma five_losses_stop:
  assumes ready: "trainer_ready self"
    and thr: "self_valid_patience self = 2"
    and budget: "5 \<le> self_num_epochs self"
    and al: "aligned n train_data" and n: "0 < n"
    and draws: "\<forall>e < 5. mset (draw e) = mset [0..<n]"
    and losses: "valid 0 = 5" "valid 1 = 4" "valid 2 = 3" "valid 3 = 3" "valid 4 = 3"
  shows "\<exists>st. train self draw valid train_data = Inr (PatienceExhausted, st)
           \<and> calls st = [EvalEpoch, LrSchedulerStep 5, EvalEpoch, LrSchedulerStep 4,
                          EvalEpoch, LrSchedulerStep 3, EvalEpoch, LrSchedulerStep 3,
                          EvalEpoch, LrSchedulerStep 3, SaveModel, EvalTest]
           \<and> valid_patience st = 2 \<and> best_valid st = Finite 3"
proof -
  have len: "\<And>e. e < 5 \<Longrightarrow> length (draw e) = n"
    using draws mset_eq_length by fastforce
  have d: "mset (draw 0) = mset [0..<n]" "mset (draw (Suc 0)) = mset [0..<n]"
    "mset (draw 2) = mset [0..<n]" "mset (draw 3) = mset [0..<n]" "mset (draw 4) = mset [0..<n]"
    using draws by simp_all
  have l: "length (draw 0) = n" "length (draw (Suc 0)) = n" "length (draw 2) = n"
    "length (draw 3) = n" "length (draw 4) = n"
    using len by simp_all
  have epochs: "[0..<nat (self_num_epochs self)] = 0 # 1 # 2 # 3 # 4 # [5..<nat (self_num_epochs self)]"
    using budget by (intro upt_five) simp
  show ?thesis
    unfolding train_def train_init_def epochs
    using losses apply simp
    apply (subst train_epoch_ok [OF ready _ n d(1)])
     apply (use al in \<open>simp add: aligned_def\<close>)
    apply (simp add: after_validation_def less_best_def Let_def)
    apply (subst train_epoch_ok [OF ready _ n d(2)])
     apply (simp add: aligned_def l)
    apply (simp add: after_validation_def less_best_def Let_def)
    apply (subst train_epoch_ok [OF ready _ n d(3)])
     apply (simp add: aligned_def l)
    apply (simp add: after_validation_def less_best_def Let_def)
    apply (subst train_epoch_ok [OF ready _ n d(4)])
     apply (simp add: aligned_def l)
    apply (simp add: after_validation_def less_best_def Let_def thr)
    apply (subst train_epoch_ok [OF ready _ n d(5)])
     apply (simp add: aligned_def l)
    apply (simp add: after_validation_def less_best_def Let_def thr)
    done
qed

text \<open>
  C4. After the validation loss of an epoch: a loss strictly below the best one resets
  the patience counter to 0 and training goes on; any other loss, an equal one included,
  adds 1 to the counter, and when the counter then equals the configured patience the
  controller saves the model, runs the test evaluation and returns. With patience 2 and
  the losses 5, 4, 3, 3, 3, \<open>train\<close> returns in the fifth epoch: five validation losses
  are processed, then come the save and the test evaluation.
\<close>

theorem early_stopping_patience:
  "(less_best v (best_valid st) \<longrightarrow>
      after_validation self v st =
        Continue (st\<lparr> calls := calls st @ [EvalEpoch, LrSchedulerStep v],
                      best_valid := Finite v, valid_patience := 0 \<rparr>))
   \<and> (\<not> less_best v (best_valid st) \<longrightarrow>
      after_validation self v st =
        (if valid_patience st + 1 = self_valid_patience self
         then Return (st\<lparr> calls := calls st @ [EvalEpoch, LrSchedulerStep v, SaveModel, EvalTest],
                          valid_patience := valid_patience st + 1 \<rparr>)
         else Continue (st\<lparr> calls := calls st @ [EvalEpoch, LrSchedulerStep v],
                            valid_patience := valid_patience st + 1 \<rparr>)))
   \<and> \<not> less_best v (Finite v)
   \<and> (trainer_ready self \<and> self_valid_patience self = 2 \<and> 5 \<le> self_num_epochs self
       \<and> aligned n train_data \<and> 0 < n \<and> (\<forall>e < 5. mset (draw e) = mset [0..<n])
       \<and> valid 0 = 5 \<and> valid 1 = 4 \<and> valid 2 = 3 \<and> valid 3 = 3 \<and> valid 4 = 3 \<longrightarrow>
       (\<exists>st'. train self draw valid train_data = Inr (PatienceExhausted, st')
           \<and> calls st' = [EvalEpoch, LrSchedulerStep 5, EvalEpoch, LrSchedulerStep 4,
                          EvalEpoch, LrSchedulerStep 3, EvalEpoch, LrSchedulerStep 3,
                          EvalEpoch, LrSchedulerStep 3, SaveModel, EvalTest]
           \<and> valid_patience st' = 2 \<and> best_valid st' = Finite 3))"
  using after_validation_improved [of v st self] after_validation_not_improved [of v st self]
    five_losses_stop [of self n train_data draw valid]
  by (simp add: less_best_def)

lemma example_aligned: "aligned 2 example_data"
  by (simp add: aligned_def example_data_def example_Xs_def example_locs_def example_ys_def)

theorem early_stopping_patience_witness:
  "trainer_ready example_trainer \<and> self_valid_patience example_trainer = 2
   \<and> 5 \<le> self_num_epochs example_trainer \<and> aligned 2 example_data
   \<and> example_valid 0 = 5 \<and> example_valid 1 = 4 \<and> example_valid 2 = 3
   \<and> example_valid 3 = 3 \<and> example_valid 4 = 3
   \<and> (\<exists>st'. train example_trainer example_draw example_valid example_data
               = Inr (PatienceExhausted, st')
           \<and> calls st' = [EvalEpoch, LrSchedulerStep 5, EvalEpoch, LrSchedulerStep 4,
                          EvalEpoch, LrSchedulerStep 3, EvalEpoch, LrSchedulerStep 3,
                          EvalEpoch, LrSchedulerStep 3, SaveModel, EvalTest]
           \<and> valid_patience st' = 2 \<and> best_valid st' = Finite 3)
   \<and> less_best 4 (best_valid (train_init example_data\<lparr> best_valid := Finite 5 \<rparr>))
   \<and> after_validation example_trainer 4 (train_init example_data\<lparr> best_valid := Finite 5 \<rparr>)
       = Continue (train_init example_data
                     \<lparr> calls := [EvalEpoch, LrSchedulerStep 4], best_valid := Finite 4,
                       valid_patience := 0 \<rparr>)
   \<and> \<not> less_best 3 (best_valid (train_init example_data
                                    \<lparr> best_valid := Finite 3, valid_patience := 1 \<rparr>))
   \<and> after_validation example_trainer 3
         (train_init example_data\<lparr> best_valid := Finite 3, valid_patience := 1 \<rparr>)
       = Return (train_init example_data
                   \<lparr> best_valid := Finite 3,
                     calls := [EvalEpoch, LrSchedulerStep 3, SaveModel, EvalTest],
                     valid_patience := 2 \<rparr>)"
proof -
  have h: "self_valid_patience example_trainer = 2" "5 \<le> self_num_epochs example_trainer"
    by (simp_all add: example_trainer_def)
  have v: "example_valid 0 = 5" "example_valid 1 = 4" "example_valid 2 = 3"
    "example_valid 3 = 3" "example_valid 4 = 3"
    by (simp_all add: example_valid_def)
  have d: "\<forall>e < 5. mset (example_draw e) = mset [0..<2]"
    by (simp add: example_draw_def upt_conv_Cons)
  have a: "less_best 4 (best_valid (train_init example_data\<lparr> best_valid := Finite 5 \<rparr>))"
    by (simp add: less_best_def)
  have b: "\<not> less_best 3 (best_valid (train_init example_data
                                    \<lparr> best_valid := Finite 3, valid_patience := 1 \<rparr>))"
    by (simp add: less_best_def)
  note T1 = early_stopping_patience
              [of 4 "train_init example_data\<lparr> best_valid := Finite 5 \<rparr>" example_trainer
                  2 example_data example_draw example_valid]
  note T2 = early_stopping_patience
              [of 3 "train_init example_data\<lparr> best_valid := Finite 3, valid_patience := 1 \<rparr>"
                  example_trainer 2 example_data example_draw example_valid]
  from T1 a have A: "after_validation example_trainer 4
                       (train_init example_data\<lparr> best_valid := Finite 5 \<rparr>)
       = Continue (train_init example_data
                     \<lparr> calls := [EvalEpoch, LrSchedulerStep 4], best_valid := Finite 4,
                       valid_patience := 0 \<rparr>)"
    by (simp add: train_init_def)
  from T2 b h have B: "after_validation example_trainer 3
         (train_init example_data\<lparr> best_valid := Finite 3, valid_patience := 1 \<rparr>)
       = Return (train_init example_data
                   \<lparr> best_valid := Finite 3,
                     calls := [EvalEpoch, LrSchedulerStep 3, SaveModel, EvalTest],
                     valid_patience := 2 \<rparr>)"
    by (simp add: train_init_def)
  from T1 example_trainer_ready h example_aligned d v
  have C: "\<exists>st'. train example_trainer example_draw example_valid example_data
               = Inr (PatienceExhausted, st')
           \<and> calls st' = [EvalEpoch, LrSchedulerStep 5, EvalEpoch, LrSchedulerStep 4,
                          EvalEpoch, LrSchedulerStep 3, EvalEpoch, LrSchedulerStep 3,
                          EvalEpoch, LrSchedulerStep 3, SaveModel, EvalTest]
           \<and> valid_patience st' = 2 \<and> best_valid st' = Finite 3"
    by simp
  from example_trainer_ready h example_aligned v a A b B C show ?thesis by blast
qed

lemma lr_losses_append: "lr_losses (cs @ ds) = lr_losses cs @ lr_losses ds"
  by (induction cs) (simp_all split: call.splits)

lemma reshuffle_Cons:
  "reshuffle draw (e # es) rows = reshuffle draw es (map (\<lambda>i. rows ! i) (draw e))"
  by (simp add: reshuffle_def)

lemma map_nth_map_nth:
  assumes "set p \<subseteq> {0..<length s}"
  shows "map (\<lambda>i. map (\<lambda>j. base ! j) s ! i) p = map (\<lambda>j. base ! j) (map (\<lambda>i. s ! i) p)"
  using assms by (auto simp: subset_iff)

lemma train_epochs_run:
  assumes ready: "trainer_ready self" and n: "0 < n"
    and draws: "\<forall>e. mset (draw e) = mset [0..<n]"
  shows "mset s = mset [0..<n] \<Longrightarrow>
         Xs st = map (\<lambda>i. bX ! i) s \<Longrightarrow> tourist_locs st = map (\<lambda>i. bL ! i) s \<Longrightarrow>
         ys st = map (\<lambda>i. bY ! i) s \<Longrightarrow>
         \<exists>fin st' k. train_epochs self draw valid es st = Inr (fin, st')
           \<and> k \<le> length es \<and> (es \<noteq> [] \<longrightarrow> 0 < k)
           \<and> lr_losses (calls st') = lr_losses (calls st) @ map valid (take k es)
           \<and> landmarks st' = landmarks st
           \<and> mset (reshuffle draw (take k es) s) = mset [0..<n]
           \<and> Xs st' = map (\<lambda>i. bX ! i) (reshuffle draw (take k es) s)
           \<and> tourist_locs st' = map (\<lambda>i. bL ! i) (reshuffle draw (take k es) s)
           \<and> ys st' = map (\<lambda>i. bY ! i) (reshuffle draw (take k es) s)"
proof (induction es arbitrary: st s)
  case Nil
  then show ?case
    by (simp add: lr_losses_append reshuffle_def)
next
  case (Cons e es)
  let ?p = "draw e"
  let ?s = "map (\<lambda>i. s ! i) ?p"
  from draws have p: "mset ?p = mset [0..<n]" by simp
  then have lp: "length ?p = n" and sp: "set ?p = {0..<n}"
    using mset_eq_length mset_eq_setD by fastforce+
  from Cons.prems(1) have ls: "length s = n"
    using mset_eq_length by fastforce
  have al: "aligned n st"
    by (simp add: aligned_def Cons.prems ls)
  have s': "mset ?s = mset [0..<n]"
    using mset_map_nth_perm [of ?p s] p ls Cons.prems(1) by simp
  let ?st1 = "st\<lparr> Xs := map (\<lambda>i. Xs st ! i) ?p,
                     tourist_locs := map (\<lambda>i. tourist_locs st ! i) ?p,
                     ys := map (\<lambda>i. ys st ! i) ?p \<rparr>"
  have ep: "train_epoch self ?p (valid e) st = Inr (after_validation self (valid e) ?st1)"
    by (rule train_epoch_ok [OF ready al n p])
  have sub: "set ?p \<subseteq> {0..<length s}" using sp ls by simp
  have arr: "Xs ?st1 = map (\<lambda>i. bX ! i) ?s" "tourist_locs ?st1 = map (\<lambda>i. bL ! i) ?s"
    "ys ?st1 = map (\<lambda>i. bY ! i) ?s"
    using map_nth_map_nth [OF sub] by (simp_all add: Cons.prems)
  show ?case
  proof (cases "after_validation self (valid e) ?st1")
    case (Return st2)
    then have f: "Xs st2 = Xs ?st1" "tourist_locs st2 = tourist_locs ?st1" "ys st2 = ys ?st1"
      "landmarks st2 = landmarks st"
      "lr_losses (calls st2) = lr_losses (calls st) @ [valid e]"
      by (auto simp: after_validation_def Let_def lr_losses_append split: if_splits)
    show ?thesis
      apply (rule exI [of _ PatienceExhausted], rule exI [of _ st2], rule exI [of _ "Suc 0"])
      using ep Return f arr s' by (simp add: reshuffle_def)
  next
    case (Continue st2)
    then have f: "Xs st2 = Xs ?st1" "tourist_locs st2 = tourist_locs ?st1" "ys st2 = ys ?st1"
      "landmarks st2 = landmarks st"
      "lr_losses (calls st2) = lr_losses (calls st) @ [valid e]"
      by (auto simp: after_validation_def Let_def lr_losses_append split: if_splits)
    from Cons.IH [OF s', of st2] f arr obtain fin st' k where
      r: "train_epochs self draw valid es st2 = Inr (fin, st')" "k \<le> length es"
        "lr_losses (calls st') = lr_losses (calls st2) @ map valid (take k es)"
        "landmarks st' = landmarks st2"
        "mset (reshuffle draw (take k es) ?s) = mset [0..<n]"
        "Xs st' = map (\<lambda>i. bX ! i) (reshuffle draw (take k es) ?s)"
        "tourist_locs st' = map (\<lambda>i. bL ! i) (reshuffle draw (take k es) ?s)"
        "ys st' = map (\<lambda>i. bY ! i) (reshuffle draw (take k es) ?s)"
      by auto
    show ?thesis
      apply (rule exI [of _ fin], rule exI [of _ st'], rule exI [of _ "Suc k"])
      using ep Continue r f by (simp add: reshuffle_Cons)
  qed
qed

text \<open>
  C10 (amended). In every epoch the trajectories, the tourist locations and the
  targets are read at one and the same drawn permutation, and the landmarks are read at
  none. When \<open>train\<close> returns after k epochs, row i of each of the three arrays is the
  row that the dataset had at index \<open>reshuffle draw [0..<k] [0..<n] ! i\<close>, a rearrangement
  of the indices, while the landmark set at i is the one the dataset had at i: the two
  stay together at every index that the composed shuffles leave in place, and a moved
  triple stands beside the landmark set of another example.
\<close>

theorem shuffle_moves_triples_not_landmarks:
  assumes ready: "trainer_ready self" and al: "aligned n train_data" and n: "0 < n"
    and draws: "\<forall>e. mset (draw e) = mset [0..<n]"
    and budget: "0 < self_num_epochs self"
  shows "\<exists>fin st' k.
           train self draw valid train_data = Inr (fin, st')
         \<and> 0 < k \<and> k \<le> nat (self_num_epochs self)
         \<and> lr_losses (calls st') = map valid [0..<k]
         \<and> mset (reshuffle draw [0..<k] [0..<n]) = mset [0..<n]
         \<and> Xs st' = map (\<lambda>i. Xs train_data ! i) (reshuffle draw [0..<k] [0..<n])
         \<and> tourist_locs st'
             = map (\<lambda>i. tourist_locs train_data ! i) (reshuffle draw [0..<k] [0..<n])
         \<and> ys st' = map (\<lambda>i. ys train_data ! i) (reshuffle draw [0..<k] [0..<n])
         \<and> landmarks st' = landmarks train_data"
proof -
  let ?es = "[0..<nat (self_num_epochs self)]"
  from al have a: "Xs (train_init train_data) = map (\<lambda>i. Xs train_data ! i) [0..<n]"
    "tourist_locs (train_init train_data) = map (\<lambda>i. tourist_locs train_data ! i) [0..<n]"
    "ys (train_init train_data) = map (\<lambda>i. ys train_data ! i) [0..<n]"
    unfolding aligned_def train_init_def by (simp_all, (metis map_nth)+)
  from train_epochs_run [OF ready n draws refl a, of valid ?es]
  obtain fin st' k where
    r: "train_epochs self draw valid ?es (train_init train_data) = Inr (fin, st')"
      "k \<le> length ?es" "?es \<noteq> [] \<longrightarrow> 0 < k"
      "lr_losses (calls st') = lr_losses (calls (train_init train_data)) @ map valid (take k ?es)"
      "landmarks st' = landmarks (train_init train_data)"
      "mset (reshuffle draw (take k ?es) [0..<n]) = mset [0..<n]"
      "Xs st' = map (\<lambda>i. Xs train_data ! i) (reshuffle draw (take k ?es) [0..<n])"
      "tourist_locs st'
         = map (\<lambda>i. tourist_locs train_data ! i) (reshuffle draw (take k ?es) [0..<n])"
      "ys st' = map (\<lambda>i. ys train_data ! i) (reshuffle draw (take k ?es) [0..<n])"
    by blast
  from r(2) have tk: "take k ?es = [0..<k]"
    by (simp add: take_upt)
  from budget r(3) have k: "0 < k" by simp
  show ?thesis
    apply (rule exI [of _ fin], rule exI [of _ st'], rule exI [of _ k])
    using r k unfolding tk by (simp add: train_def train_init_def)
qed

theorem shuffle_moves_triples_not_landmarks_witness:
  "trainer_ready example_trainer \<and> aligned 2 example_data
   \<and> 0 < self_num_epochs example_trainer
   \<and> (\<exists>st'. train example_trainer example_draw example_valid example_data
               = Inr (PatienceExhausted, st')
          \<and> lr_losses (calls st') = [5, 4, 3, 3, 3]
          \<and> Xs st' = [example_Xs ! 1, example_Xs ! 0]
          \<and> tourist_locs st' = [[3, 4], [1, 2]]
          \<and> ys st' = [[4, 1], [4, 4, 4, 1]]
          \<and> landmarks st' = [[''Coffee Shop''], [''Bar'']])"
proof -
  have d: "\<forall>e. mset (example_draw e) = mset [0..<2]"
    by (simp add: example_draw_def upt_conv_Cons)
  have h: "self_valid_patience example_trainer = 2" "5 \<le> self_num_epochs example_trainer"
    "0 < self_num_epochs example_trainer"
    by (simp_all add: example_trainer_def)
  from shuffle_moves_triples_not_landmarks
         [OF example_trainer_ready example_aligned _ d h(3), of example_valid]
  obtain fin st' k where
    r: "train example_trainer example_draw example_valid example_data = Inr (fin, st')"
      "lr_losses (calls st') = map example_valid [0..<k]"
      "Xs st' = map (\<lambda>i. Xs example_data ! i) (reshuffle example_draw [0..<k] [0..<2])"
      "tourist_locs st'
         = map (\<lambda>i. tourist_locs example_data ! i) (reshuffle example_draw [0..<k] [0..<2])"
      "ys st' = map (\<lambda>i. ys example_data ! i) (reshuffle example_draw [0..<k] [0..<2])"
      "landmarks st' = landmarks example_data"
    by auto
  from five_losses_stop [OF example_trainer_ready h(1,2) example_aligned, of example_draw example_valid] d
  obtain st'' where s: "train example_trainer example_draw example_valid example_data
              = Inr (PatienceExhausted, st'')"
    "calls st'' = [EvalEpoch, LrSchedulerStep 5, EvalEpoch, LrSchedulerStep 4,
                          EvalEpoch, LrSchedulerStep 3, EvalEpoch, LrSchedulerStep 3,
                          EvalEpoch, LrSchedulerStep 3, SaveModel, EvalTest]"
    by (auto simp: example_valid_def)
  from r(1) s(1) have eq: "fin = PatienceExhausted" "st'' = st'" by simp_all
  from s(2) have l: "lr_losses (calls st') = [5, 4, 3, 3, 3]"
    by (simp add: eq)
  have "length (lr_losses (calls st')) = 5" by (simp add: l)
  then have k: "k = 5" by (simp add: r(2))
  have sig: "reshuffle example_draw [0..<5] [0..<2] = [1, 0]"
    by (simp add: reshuffle_def example_draw_def upt_conv_Cons)
  have "Xs st' = [example_Xs ! 1, example_Xs ! 0]" "tourist_locs st' = [[3, 4], [1, 2]]"
    "ys st' = [[4, 1], [4, 4, 4, 1]]" "landmarks st' = [[''Coffee Shop''], [''Bar'']]"
    using r(3-6) unfolding k sig
    by (simp_all add: example_data_def example_locs_def example_ys_def)
  with r(1) eq l example_trainer_ready example_aligned h(3) show ?thesis by blast
qed

text \<open>
  A dataset of one example has a single permutation to draw: after training, the landmark
  set at index 0 still stands with the triple it was loaded with.
\<close>

lemma single_aligned: "aligned 1 single_data"
  by (simp add: aligned_def single_data_def)

theorem identity_shuffle_counterexample:
  "train example_trainer single_draw example_valid single_data =
     Inr (PatienceExhausted,
          train_init single_data
            \<lparr> best_valid := Finite 3, valid_patience := 2,
              calls := [EvalEpoch, LrSchedulerStep 5, EvalEpoch, LrSchedulerStep 4,
                        EvalEpoch, LrSchedulerStep 3, EvalEpoch, LrSchedulerStep 3,
                        EvalEpoch, LrSchedulerStep 3, SaveModel, EvalTest] \<rparr>)"
proof -
  have d: "\<forall>e. mset (single_draw e) = mset [0..<1]"
    by (simp add: single_draw_def)
  have h: "self_valid_patience example_trainer = 2" "5 \<le> self_num_epochs example_trainer"
    by (simp_all add: example_trainer_def)
  from five_losses_stop [OF example_trainer_ready h single_aligned, of single_draw example_valid] d
  obtain st where s: "train example_trainer single_draw example_valid single_data
              = Inr (PatienceExhausted, st)"
    "calls st = [EvalEpoch, LrSchedulerStep 5, EvalEpoch, LrSchedulerStep 4,
                          EvalEpoch, LrSchedulerStep 3, EvalEpoch, LrSchedulerStep 3,
                          EvalEpoch, LrSchedulerStep 3, SaveModel, EvalTest]"
    "valid_patience st = 2" "best_valid st = Finite 3"
    by (auto simp: example_valid_def)
  let ?es = "[0..<nat (self_num_epochs example_trainer)]"
  have a: "Xs (train_init single_data) = map (\<lambda>i. Xs single_data ! i) [0..<1]"
    "tourist_locs (train_init single_data) = map (\<lambda>i. tourist_locs single_data ! i) [0..<1]"
    "ys (train_init single_data) = map (\<lambda>i. ys single_data ! i) [0..<1]"
    by (simp_all add: train_init_def single_data_def)
  from train_epochs_run [OF example_trainer_ready zero_less_one d refl a, of example_valid ?es]
  obtain fin st' k where
    r: "train_epochs example_trainer single_draw example_valid ?es (train_init single_data)
          = Inr (fin, st')"
      "landmarks st' = landmarks (train_init single_data)"
      "mset (reshuffle single_draw (take k ?es) [0..<1]) = mset [0..<1]"
      "Xs st' = map (\<lambda>i. Xs single_data ! i) (reshuffle single_draw (take k ?es) [0..<1])"
      "tourist_locs st'
         = map (\<lambda>i. tourist_locs single_data ! i) (reshuffle single_draw (take k ?es) [0..<1])"
      "ys st' = map (\<lambda>i. ys single_data ! i) (reshuffle single_draw (take k ?es) [0..<1])"
    by blast
  from r(3) have sig: "reshuffle single_draw (take k ?es) [0..<1] = [0]" by simp
  from r(1) s(1) have eq: "st' = st" by (simp add: train_def)
  have "Xs st = Xs single_data" "tourist_locs st = tourist_locs single_data"
    "ys st = ys single_data" "landmarks st = landmarks single_data"
    using r(2,4-6) unfolding sig eq by (simp_all add: single_data_def train_init_def)
  with s(2-4) have "st = train_init single_data
            \<lparr> best_valid := Finite 3, valid_patience := 2,
              calls := [EvalEpoch, LrSchedulerStep 5, EvalEpoch, LrSchedulerStep 4,
                        EvalEpoch, LrSchedulerStep 3, EvalEpoch, LrSchedulerStep 3,
                        EvalEpoch, LrSchedulerStep 3, SaveModel, EvalTest] \<rparr>"
    by (cases st) (simp add: train_init_def)
  with s(1) show ?thesis by simp
qed

end
